theory Spec2Isabelle
  imports Main "HOL-Library.AList"
begin

section \<open>Python values and schedule records\<close>

text \<open>
  A schedule is a Python dict with string keys (\<^verbatim>\<open>scheduler.py\<close>, \<^verbatim>\<open>add_schedule\<close>).
  Its values are \<^verbatim>\<open>None\<close>, booleans and strings. A string that holds a time is kept
  as what the Python library makes of its text: \<open>PClock h m\<close> is text that
  \<^verbatim>\<open>map(int, s.split(':'))\<close> unpacks into the two integers \<open>h\<close> and \<open>m\<close>;
  \<open>PStamp t\<close> is the text \<^verbatim>\<open>datetime.isoformat()\<close> writes for the naive instant
  \<open>t\<close> and \<^verbatim>\<open>datetime.fromisoformat\<close> reads back; \<open>PStr s\<close> is any other text
  (neither parser accepts it). Instants are counted in microseconds, the resolution of
  \<^verbatim>\<open>datetime\<close>, from midnight of day 0, which is 0001-01-01. A week added to a stored
  timestamp is checked against the range of \<^verbatim>\<open>datetime\<close> and raises OverflowError
  outside it; the intervals added to a reading of the clock are not checked, a reading of
  the clock being far from \<^verbatim>\<open>datetime.max\<close>.
\<close>

datatype error = KeyError | ValueError | TypeError | AttributeError | OverflowError

datatype pyval = PNone | PBool bool | PStr string | PClock int int | PStamp int

type_synonym schedule = "string \<rightharpoonup> pyval"

text \<open>Truth value of a Python object: \<^verbatim>\<open>if x\<close>, \<^verbatim>\<open>not x\<close>.\<close>

fun truthy :: "pyval \<Rightarrow> bool" where
  "truthy PNone = False"
| "truthy (PBool b) = b"
| "truthy (PStr s) = (s \<noteq> [])"
| "truthy (PClock h m) = True"
| "truthy (PStamp t) = True"

text \<open>\<^verbatim>\<open>schedule.get(k)\<close> and \<^verbatim>\<open>schedule[k]\<close>.\<close>

definition pyget :: "schedule \<Rightarrow> string \<Rightarrow> pyval" where
  "pyget s k = (case s k of None \<Rightarrow> PNone | Some v \<Rightarrow> v)"

definition item :: "schedule \<Rightarrow> string \<Rightarrow> error + pyval" where
  "item s k = (case s k of None \<Rightarrow> Inl KeyError | Some v \<Rightarrow> Inr v)"

text \<open>Sequencing of computations that may raise.\<close>

definition and_then :: "error + 'a \<Rightarrow> ('a \<Rightarrow> error + 'b) \<Rightarrow> error + 'b" where
  "and_then x f = (case x of Inl e \<Rightarrow> Inl e | Inr v \<Rightarrow> f v)"

text \<open>
  The f-strings of the log lines read \<^verbatim>\<open>schedule['id']\<close>; an f-string is evaluated
  before the logger looks at its level, so a record without \<^verbatim>\<open>id\<close> raises there.
\<close>

definition log_id :: "schedule \<Rightarrow> error option" where
  "log_id s = (case s ''id'' of None \<Rightarrow> Some KeyError | Some v \<Rightarrow> None)"

section \<open>Dates and times\<close>

definition minute_us :: int where
  "minute_us = 60000000"

definition day_us :: int where
  "day_us = 86400000000"

text \<open>\<^verbatim>\<open>now.date()\<close> (as a day number), \<^verbatim>\<open>now.time()\<close> and \<^verbatim>\<open>datetime.combine\<close>.\<close>

definition date_of :: "int \<Rightarrow> int" where
  "date_of t = t div day_us"

definition time_of :: "int \<Rightarrow> int" where
  "time_of t = t mod day_us"

definition combine :: "int \<Rightarrow> int \<Rightarrow> int" where
  "combine d tod = d * day_us + tod"

text \<open>\<^verbatim>\<open>timedelta(days=n)\<close>.\<close>

definition days :: "int \<Rightarrow> int" where
  "days n = n * day_us"

text \<open>
  \<^verbatim>\<open>datetime.max\<close> is the last microsecond of 9999-12-31, day 3652058, and
  \<^verbatim>\<open>datetime.min\<close> is the instant 0. \<^verbatim>\<open>dt + timedelta\<close> raises OverflowError when
  the sum is not a \<^verbatim>\<open>datetime\<close>.
\<close>

definition datetime_max :: int where
  "datetime_max = 3652059 * day_us - 1"

definition representable :: "int \<Rightarrow> bool" where
  "representable t \<longleftrightarrow> 0 \<le> t \<and> t \<le> datetime_max"

definition plus_timedelta :: "int \<Rightarrow> int \<Rightarrow> error + int" where
  "plus_timedelta t delta = (if representable (t + delta) then Inr (t + delta) else Inl OverflowError)"

text \<open>
  \<^verbatim>\<open>datetime.min.time().replace(hour=h, minute=m)\<close>: a time of day, or ValueError
  when the hour or the minute is out of range.
\<close>

definition time_replace :: "int \<Rightarrow> int \<Rightarrow> error + int" where
  "time_replace h m =
     (if 0 \<le> h \<and> h \<le> 23 \<and> 0 \<le> m \<and> m \<le> 59 then Inr ((h * 60 + m) * minute_us)
      else Inl ValueError)"

text \<open>\<^verbatim>\<open>h, m = map(int, text.split(':'))\<close>.\<close>

fun parse_clock :: "pyval \<Rightarrow> error + (int \<times> int)" where
  "parse_clock (PClock h m) = Inr (h, m)"
| "parse_clock (PStamp t) = Inl ValueError"
| "parse_clock (PStr s) = Inl ValueError"
| "parse_clock PNone = Inl AttributeError"
| "parse_clock (PBool b) = Inl AttributeError"

text \<open>\<^verbatim>\<open>datetime.fromisoformat(text)\<close>.\<close>

fun fromisoformat :: "pyval \<Rightarrow> error + int" where
  "fromisoformat (PStamp t) = Inr t"
| "fromisoformat (PClock h m) = Inl ValueError"
| "fromisoformat (PStr s) = Inl ValueError"
| "fromisoformat PNone = Inl TypeError"
| "fromisoformat (PBool b) = Inl TypeError"

text \<open>
  \<^verbatim>\<open>timedelta(minutes=random.uniform(5, 8))\<close>: the draw is an input of the model,
  given as the length of the interval in microseconds.
\<close>

definition uniform_5_8 :: "int \<Rightarrow> bool" where
  "uniform_5_8 r \<longleftrightarrow> 5 * minute_us \<le> r \<and> r \<le> 8 * minute_us"

section \<open>Time windows (\<^verbatim>\<open>time_calculator.py\<close>)\<close>

text \<open>
  The window of a daily schedule at \<open>now\<close>. The same statements open
  \<^verbatim>\<open>DailyTimeCalculator.check_schedule\<close>, \<^verbatim>\<open>DailyTimeCalculator.calculate_next_check\<close>,
  \<^verbatim>\<open>Scheduler._check_daily_schedule\<close> and the daily half of
  \<^verbatim>\<open>Scheduler._update_next_check\<close>.
\<close>

record window =
  start_dt :: int
  end_dt :: int
  spans_midnight :: bool
  start_clock :: int

definition daily_window :: "schedule \<Rightarrow> int \<Rightarrow> error + window" where
  "daily_window s now =
     and_then (item s ''start_time'') (\<lambda>start_time_str.
     and_then (item s ''end_time'') (\<lambda>end_time_str.
     and_then (parse_clock start_time_str) (\<lambda>(start_hour, start_min).
     and_then (parse_clock end_time_str) (\<lambda>(end_hour, end_min).
     and_then (time_replace start_hour start_min) (\<lambda>start_tod.
     and_then (time_replace end_hour end_min) (\<lambda>end_tod.
       let today = date_of now;
           spans = (end_hour < start_hour \<or> (end_hour = start_hour \<and> end_min < start_min))
       in Inr (if spans then
                 (if time_of now < start_tod
                  then \<lparr>start_dt = combine (today - 1) start_tod, end_dt = combine today end_tod,
                        spans_midnight = spans, start_clock = start_tod\<rparr>
                  else \<lparr>start_dt = combine today start_tod,
                        end_dt = combine today end_tod + days 1,
                        spans_midnight = spans, start_clock = start_tod\<rparr>)
               else \<lparr>start_dt = combine today start_tod, end_dt = combine today end_tod,
                     spans_midnight = spans, start_clock = start_tod\<rparr>)))))))"

text \<open>The window of a regular schedule: its two timestamps.\<close>

definition regular_window :: "schedule \<Rightarrow> error + (int \<times> int)" where
  "regular_window s =
     and_then (item s ''start_time'') (\<lambda>a.
     and_then (fromisoformat a) (\<lambda>start.
     and_then (item s ''end_time'') (\<lambda>b.
     and_then (fromisoformat b) (\<lambda>end. Inr (start, end)))))"

text \<open>The next poll inside a window: the draw ahead of \<open>now\<close>, cut at the window end.\<close>

definition next_in_window :: "int \<Rightarrow> int \<Rightarrow> int \<Rightarrow> int" where
  "next_in_window now r end =
     (let next_dt = now + r in if next_dt > end then end else next_dt)"

text \<open>\<^verbatim>\<open>DailyTimeCalculator.calculate_next_check(schedule, now)\<close>.\<close>

definition daily_calculate_next_check :: "schedule \<Rightarrow> int \<Rightarrow> int \<Rightarrow> schedule \<times> error option" where
  "daily_calculate_next_check s now r =
     (case daily_window s now of
        Inl e \<Rightarrow> (s, Some e)
      | Inr w \<Rightarrow>
          if now < start_dt w then
            (s(''next_check'' \<mapsto> PStamp (start_dt w)), log_id s)
          else if start_dt w \<le> now \<and> now \<le> end_dt w then
            (s(''next_check'' \<mapsto> PStamp (next_in_window now r (end_dt w))), log_id s)
          else
            (let today = date_of now;
                 next_start =
                   (if spans_midnight w \<and> time_of now < start_clock w
                    then combine today (start_clock w)
                    else combine (today + 1) (start_clock w))
             in (s(''next_check'' \<mapsto> PStamp next_start), log_id s)))"

text \<open>\<^verbatim>\<open>RegularTimeCalculator.calculate_next_check(schedule, now)\<close>.\<close>

definition regular_calculate_next_check :: "schedule \<Rightarrow> int \<Rightarrow> int \<Rightarrow> schedule \<times> error option" where
  "regular_calculate_next_check s now r =
     (case regular_window s of
        Inl e \<Rightarrow> (s, Some e)
      | Inr (start, end) \<Rightarrow>
          if now < start then
            (s(''next_check'' \<mapsto> PStamp start), log_id s)
          else if start \<le> now \<and> now \<le> end then
            (s(''next_check'' \<mapsto> PStamp (next_in_window now r end)), log_id s)
          else
            (s(''next_check'' \<mapsto> PNone), log_id s))"

text \<open>
  The calculators' \<^verbatim>\<open>check_schedule\<close> call \<^verbatim>\<open>self.calculate_next_check\<close> and then
  \<^verbatim>\<open>return False\<close>.
\<close>

definition then_false :: "schedule \<times> error option \<Rightarrow> schedule \<times> (error + bool)" where
  "then_false p = (case snd p of None \<Rightarrow> (fst p, Inr False) | Some e \<Rightarrow> (fst p, Inl e))"

text \<open>
  The branch both \<^verbatim>\<open>check_schedule\<close> methods take inside the window: the first entry
  from \<^verbatim>\<open>pending\<close>, a missing \<^verbatim>\<open>next_check\<close> or an elapsed one makes the check due.
\<close>

definition calc_in_window :: "schedule \<Rightarrow> int \<Rightarrow> schedule \<times> (error + bool)" where
  "calc_in_window s now =
     (case item s ''status'' of
        Inl e \<Rightarrow> (s, Inl e)
      | Inr st \<Rightarrow>
          if st = PStr ''download_started'' then (s, Inr False)
          else
            (let was_pending = (st = PStr ''pending'');
                 s1 = s(''status'' \<mapsto> PStr ''active'');
                 next_check = pyget s1 ''next_check''
             in if was_pending \<or> \<not> truthy next_check then (s1, Inr True)
                else (case fromisoformat next_check of
                        Inl e \<Rightarrow> (s1, Inl e)
                      | Inr nc \<Rightarrow> (s1, Inr (now \<ge> nc)))))"

text \<open>
  The branch before the window: \<^verbatim>\<open>pending\<close>, and \<^verbatim>\<open>next_check\<close> recomputed unless
  it already is the window start.
\<close>

definition calc_before_window ::
  "(schedule \<Rightarrow> schedule \<times> error option) \<Rightarrow> schedule \<Rightarrow> int \<Rightarrow> schedule \<times> (error + bool)" where
  "calc_before_window calculate s start =
     (let s1 = s(''status'' \<mapsto> PStr ''pending'');
          next_check = pyget s1 ''next_check''
      in if \<not> truthy next_check then then_false (calculate s1)
         else (case fromisoformat next_check of
                 Inl e \<Rightarrow> (s1, Inl e)
               | Inr nc \<Rightarrow> if nc \<noteq> start then then_false (calculate s1) else (s1, Inr False)))"

text \<open>\<^verbatim>\<open>DailyTimeCalculator.check_schedule(schedule, now)\<close>.\<close>

definition daily_check_schedule :: "schedule \<Rightarrow> int \<Rightarrow> int \<Rightarrow> schedule \<times> (error + bool)" where
  "daily_check_schedule s now r =
     (case daily_window s now of
        Inl e \<Rightarrow> (s, Inl e)
      | Inr w \<Rightarrow>
          if start_dt w \<le> now \<and> now \<le> end_dt w then calc_in_window s now
          else if now < start_dt w then
            calc_before_window (\<lambda>s1. daily_calculate_next_check s1 now r) s (start_dt w)
          else
            (case item s ''status'' of
               Inl e \<Rightarrow> (s, Inl e)
             | Inr st \<Rightarrow>
                 if st = PStr ''active'' \<or> st = PStr ''download_started'' then
                   then_false (daily_calculate_next_check
                     (s(''status'' \<mapsto> PStr ''pending'', ''last_check'' \<mapsto> PNone)) now r)
                 else (s, Inr False)))"

text \<open>\<^verbatim>\<open>RegularTimeCalculator.check_schedule(schedule, now)\<close>.\<close>

definition regular_check_schedule :: "schedule \<Rightarrow> int \<Rightarrow> int \<Rightarrow> schedule \<times> (error + bool)" where
  "regular_check_schedule s now r =
     (case regular_window s of
        Inl e \<Rightarrow> (s, Inl e)
      | Inr (start, end) \<Rightarrow>
          if now > end then (s, Inr False)
          else if start \<le> now \<and> now \<le> end then calc_in_window s now
          else if now < start then
            calc_before_window (\<lambda>s1. regular_calculate_next_check s1 now r) s start
          else (s, Inr False))"

section \<open>What a tick reads from outside\<close>

text \<open>
  \<^verbatim>\<open>_update_next_check\<close> reads the clock again (\<^verbatim>\<open>datetime.now()\<close>) and draws the
  random interval; one schedule makes at most one such call in a tick. Both readings are
  inputs of the model.
\<close>

record ambient =
  clock :: int
  jitter :: int

text \<open>
  What one pass of the loop body leaves behind: the record as mutated in place, whether
  a Check Task thread was started, the exception the \<^verbatim>\<open>except Exception\<close> clause
  logged, and the exception that leaves the loop.
\<close>

record outcome =
  after :: schedule
  spawned :: bool
  logged :: "error option"
  escaped :: "error option"

text \<open>
  The \<^verbatim>\<open>for schedule in schedules\<close> loop: the bodies run in list order, and an
  exception that leaves a body ends the loop.
\<close>

fun for_each :: "(nat \<Rightarrow> schedule \<Rightarrow> outcome) \<Rightarrow> nat \<Rightarrow> schedule list \<Rightarrow> outcome list" where
  "for_each body i [] = []"
| "for_each body i (s # ss) =
     (if escaped (body i s) = None then body i s # for_each body (Suc i) ss
      else [body i s])"

text \<open>
  A tick: the list after the loop (records the loop did not reach are unchanged), the
  passes made, the lists handed to the save operation, and the exception that leaves
  the tick.
\<close>

record tick =
  schedules_after :: "schedule list"
  passes :: "outcome list"
  saved :: "schedule list list"
  raised :: "error option"

definition run_tick :: "(nat \<Rightarrow> schedule \<Rightarrow> outcome) \<Rightarrow> schedule list \<Rightarrow> tick" where
  "run_tick body schedules =
     (let outs = for_each body 0 schedules;
          schedules' = map after outs @ drop (length outs) schedules;
          err = (if outs = [] then None else escaped (last outs))
      in \<lparr>schedules_after = schedules', passes = outs,
          saved = (if err = None then [schedules'] else []), raised = err\<rparr>)"

text \<open>
  The \<^verbatim>\<open>except Exception as e\<close> clause of both loops: the log line reads
  \<^verbatim>\<open>schedule['id']\<close>.
\<close>

definition caught :: "schedule \<times> bool \<times> error option \<Rightarrow> outcome" where
  "caught p =
     (case p of
        (s, sp, None) \<Rightarrow> \<lparr>after = s, spawned = sp, logged = None, escaped = None\<rparr>
      | (s, sp, Some e) \<Rightarrow>
          \<lparr>after = s, spawned = sp,
           logged = (if log_id s = None then Some e else None), escaped = log_id s\<rparr>)"

section \<open>The execution loop of \<^verbatim>\<open>schedule_executor.py\<close>\<close>

text \<open>\<^verbatim>\<open>ScheduleExecutor._update_next_check(schedule)\<close>.\<close>

definition executor_update_next_check :: "ambient \<Rightarrow> schedule \<Rightarrow> schedule \<times> error option" where
  "executor_update_next_check d s =
     (let now = clock d in
      if truthy (pyget s ''daily'') then daily_calculate_next_check s now (jitter d)
      else regular_calculate_next_check s now (jitter d))"

text \<open>
  \<^verbatim>\<open>ScheduleExecutor._perform_check\<close>: the log line reads \<^verbatim>\<open>name\<close> and \<^verbatim>\<open>url\<close>,
  the Check Task thread is started, and \<^verbatim>\<open>next_check\<close> is recomputed.
\<close>

definition executor_perform_check :: "ambient \<Rightarrow> schedule \<Rightarrow> schedule \<times> bool \<times> error option" where
  "executor_perform_check d s =
     (case and_then (item s ''name'') (\<lambda>n. item s ''url'') of
        Inl e \<Rightarrow> (s, False, Some e)
      | Inr u \<Rightarrow> (case executor_update_next_check d s of (s1, err) \<Rightarrow> (s1, True, err)))"

text \<open>
  \<^verbatim>\<open>ScheduleExecutor.reschedule_weekly(schedule)\<close>. Both sums are formed before the
  first key is written, so an OverflowError leaves the record as it was.
\<close>

definition reschedule_weekly :: "ambient \<Rightarrow> schedule \<Rightarrow> schedule \<times> error option" where
  "reschedule_weekly d s =
     (case regular_window s of
        Inl e \<Rightarrow> (s, Some e)
      | Inr (start, end) \<Rightarrow>
          (case and_then (plus_timedelta start (days 7)) (\<lambda>new_start.
                and_then (plus_timedelta end (days 7)) (\<lambda>new_end. Inr (new_start, new_end))) of
             Inl e \<Rightarrow> (s, Some e)
           | Inr (new_start, new_end) \<Rightarrow>
               (let s1 = s(''start_time'' \<mapsto> PStamp new_start, ''end_time'' \<mapsto> PStamp new_end,
                           ''status'' \<mapsto> PStr ''pending'')
                in case executor_update_next_check d s1 of
                     (s2, Some e) \<Rightarrow> (s2, Some e)
                   | (s2, None) \<Rightarrow> (s2, log_id s2))))"

text \<open>What \<^verbatim>\<open>execute_schedules\<close> does with the answer of a calculator.\<close>

definition executor_dispatch ::
  "ambient \<Rightarrow> schedule \<times> (error + bool) \<Rightarrow> schedule \<times> bool \<times> error option" where
  "executor_dispatch d p =
     (case snd p of
        Inl e \<Rightarrow> (fst p, False, Some e)
      | Inr should_execute \<Rightarrow>
          if should_execute then executor_perform_check d (fst p) else (fst p, False, None))"

text \<open>The \<^verbatim>\<open>try\<close> block of \<^verbatim>\<open>ScheduleExecutor.execute_schedules\<close>.\<close>

definition execute_body :: "int \<Rightarrow> ambient \<Rightarrow> schedule \<Rightarrow> schedule \<times> bool \<times> error option" where
  "execute_body now d s =
     (if truthy (pyget s ''daily'') then
        executor_dispatch d (daily_check_schedule s now (jitter d))
      else
        (case regular_window s of
           Inl e \<Rightarrow> (s, False, Some e)
         | Inr (start, end) \<Rightarrow>
             if now > end then
               (case item s ''repeat'' of
                  Inl e \<Rightarrow> (s, False, Some e)
                | Inr rp \<Rightarrow>
                    if truthy rp then
                      (case reschedule_weekly d s of (s1, err) \<Rightarrow> (s1, False, err))
                    else
                      (case item s ''status'' of
                         Inl e \<Rightarrow> (s, False, Some e)
                       | Inr st \<Rightarrow>
                           if st \<noteq> PStr ''download_started''
                           then (s(''status'' \<mapsto> PStr ''completed''), False, None)
                           else (s, False, None)))
             else executor_dispatch d (regular_check_schedule s now (jitter d))))"

text \<open>One pass of the loop of \<^verbatim>\<open>execute_schedules\<close>.\<close>

definition execute_one :: "int \<Rightarrow> ambient \<Rightarrow> schedule \<Rightarrow> outcome" where
  "execute_one now d s =
     (case item s ''status'' of
        Inl e \<Rightarrow> \<lparr>after = s, spawned = False, logged = None, escaped = Some e\<rparr>
      | Inr st \<Rightarrow>
          if st = PStr ''completed'' \<and> \<not> truthy (pyget s ''daily'')
          then \<lparr>after = s, spawned = False, logged = None, escaped = None\<rparr>
          else caught (execute_body now d s))"

text \<open>
  \<^verbatim>\<open>ScheduleExecutor.execute_schedules\<close>, with \<^verbatim>\<open>save_callback()\<close> after the loop.
\<close>

definition execute_schedules :: "int \<Rightarrow> (nat \<Rightarrow> ambient) \<Rightarrow> schedule list \<Rightarrow> tick" where
  "execute_schedules now env schedules = run_tick (\<lambda>i. execute_one now (env i)) schedules"

section \<open>The execution loop of \<^verbatim>\<open>scheduler.py\<close>\<close>

text \<open>
  \<^verbatim>\<open>download_queue\<close> of the download service: for each browser id, the keys of the
  download's info dict.
\<close>

type_synonym download_queue = "pyval \<rightharpoonup> string set"

text \<open>\<^verbatim>\<open>Scheduler._is_download_active(browser_id)\<close>.\<close>

definition is_download_active :: "download_queue \<Rightarrow> pyval \<Rightarrow> bool" where
  "is_download_active dq browser_id =
     (if \<not> truthy browser_id then False
      else (case dq browser_id of
              Some download_info \<Rightarrow> ''completed_at'' \<notin> download_info
            | None \<Rightarrow> False))"

text \<open>\<^verbatim>\<open>Scheduler._update_next_check(schedule)\<close>.\<close>

definition update_next_check :: "ambient \<Rightarrow> schedule \<Rightarrow> schedule \<times> error option" where
  "update_next_check d s =
     (let now = clock d in
      if truthy (pyget s ''daily'') then
        (case daily_window s now of
           Inl e \<Rightarrow> (s, Some e)
         | Inr w \<Rightarrow>
             if now < start_dt w then
               (s(''next_check'' \<mapsto> PStamp (start_dt w)), log_id s)
             else if start_dt w \<le> now \<and> now \<le> end_dt w then
               (s(''next_check'' \<mapsto> PStamp (next_in_window now (jitter d) (end_dt w))), log_id s)
             else
               (let today = date_of now;
                    next_start =
                      (if spans_midnight w \<and> time_of now < start_clock w
                       then combine today (start_clock w)
                       else combine (today + 1) (start_clock w))
                in (s(''next_check'' \<mapsto> PStamp next_start), log_id s)))
      else
        (case regular_window s of
           Inl e \<Rightarrow> (s, Some e)
         | Inr (start, end) \<Rightarrow>
             if now < start then
               (s(''next_check'' \<mapsto> PStamp start), log_id s)
             else if start \<le> now \<and> now \<le> end then
               (s(''next_check'' \<mapsto> PStamp (next_in_window now (jitter d) end)), log_id s)
             else
               (s(''next_check'' \<mapsto> PNone), log_id s)))"

text \<open>\<^verbatim>\<open>Scheduler._perform_check(schedule)\<close>.\<close>

definition perform_check :: "ambient \<Rightarrow> schedule \<Rightarrow> schedule \<times> bool \<times> error option" where
  "perform_check d s =
     (case and_then (item s ''name'') (\<lambda>n. item s ''url'') of
        Inl e \<Rightarrow> (s, False, Some e)
      | Inr u \<Rightarrow> (case update_next_check d s of (s1, err) \<Rightarrow> (s1, True, err)))"

text \<open>
  \<^verbatim>\<open>Scheduler._reschedule_next_week(schedule)\<close>. Both sums are formed before the first
  key is written, so an OverflowError leaves the record as it was.
\<close>

definition reschedule_next_week :: "ambient \<Rightarrow> schedule \<Rightarrow> schedule \<times> error option" where
  "reschedule_next_week d s =
     (case regular_window s of
        Inl e \<Rightarrow> (s, Some e)
      | Inr (start, end) \<Rightarrow>
          (case and_then (plus_timedelta start (days 7)) (\<lambda>new_start.
                and_then (plus_timedelta end (days 7)) (\<lambda>new_end. Inr (new_start, new_end))) of
             Inl e \<Rightarrow> (s, Some e)
           | Inr (new_start, new_end) \<Rightarrow>
               (let s1 = s(''start_time'' \<mapsto> PStamp new_start, ''end_time'' \<mapsto> PStamp new_end,
                           ''status'' \<mapsto> PStr ''pending'', ''active_browser_id'' \<mapsto> PNone,
                           ''manual_stop'' \<mapsto> PBool False)
                in case update_next_check d s1 of
                     (s2, Some e) \<Rightarrow> (s2, Some e)
                   | (s2, None) \<Rightarrow> (s2, log_id s2))))"

text \<open>
  "Ensure status is active, but only if next_check is within current window": the
  statements under \<^verbatim>\<open>if schedule['status'] != 'active'\<close>, with their
  \<^verbatim>\<open>except (ValueError, TypeError)\<close>.
\<close>

definition ensure_active :: "schedule \<Rightarrow> int \<Rightarrow> schedule" where
  "ensure_active s end =
     (if s ''status'' \<noteq> Some (PStr ''active'') then
        (let next_check_val = pyget s ''next_check'' in
         if truthy next_check_val then
           (case fromisoformat next_check_val of
              Inr next_check_dt \<Rightarrow>
                if next_check_dt \<le> end then s(''status'' \<mapsto> PStr ''active'') else s
            | Inl e \<Rightarrow> s(''status'' \<mapsto> PStr ''active''))
         else s(''status'' \<mapsto> PStr ''active''))
      else s)"

text \<open>"Check if it's time to check stream".\<close>

definition due_check :: "int \<Rightarrow> ambient \<Rightarrow> schedule \<Rightarrow> schedule \<times> bool \<times> error option" where
  "due_check now d s =
     (let next_check = pyget s ''next_check'' in
      if \<not> truthy next_check then perform_check d s
      else (case fromisoformat next_check of
              Inl e \<Rightarrow> (s, False, Some e)
            | Inr nc \<Rightarrow> if now \<ge> nc then perform_check d s else (s, False, None)))"

text \<open>
  The statements under \<^verbatim>\<open>if start_dt <= now <= end_dt\<close>; they stand in
  \<^verbatim>\<open>_check_schedules\<close> for a regular schedule and again in \<^verbatim>\<open>_check_daily_schedule\<close>.
\<close>

definition in_window ::
  "download_queue \<Rightarrow> int \<Rightarrow> ambient \<Rightarrow> schedule \<Rightarrow> int \<Rightarrow> schedule \<times> bool \<times> error option" where
  "in_window dq now d s end =
     (case item s ''status'' of
        Inl e \<Rightarrow> (s, False, Some e)
      | Inr st \<Rightarrow>
          if st = PStr ''download_started'' then
            (if is_download_active dq (pyget s ''active_browser_id'') then (s, False, None)
             else (case log_id s of
                     Some e \<Rightarrow> (s, False, Some e)
                   | None \<Rightarrow>
                       due_check now d
                         (ensure_active
                            (s(''status'' \<mapsto> PStr ''active'', ''active_browser_id'' \<mapsto> PNone))
                            end)))
          else due_check now d (ensure_active s end))"

text \<open>
  The statements under \<^verbatim>\<open>elif now < start_dt\<close>, in both places. The call of
  \<^verbatim>\<open>_update_next_check\<close> for a stale \<^verbatim>\<open>next_check\<close> stands inside the
  \<^verbatim>\<open>try\<close>, whose \<^verbatim>\<open>except (ValueError, TypeError)\<close> calls it again.
\<close>

definition before_window :: "int \<Rightarrow> ambient \<Rightarrow> schedule \<Rightarrow> schedule \<times> bool \<times> error option" where
  "before_window now d s =
     (let s1 = s(''status'' \<mapsto> PStr ''pending'');
          next_check = pyget s1 ''next_check''
      in if \<not> truthy next_check then
           (case update_next_check d s1 of (s2, err) \<Rightarrow> (s2, False, err))
         else
           (case fromisoformat next_check of
              Inl e \<Rightarrow> (case update_next_check d s1 of (s2, err) \<Rightarrow> (s2, False, err))
            | Inr next_check_dt \<Rightarrow>
                if next_check_dt < now then
                  (case update_next_check d s1 of
                     (s2, None) \<Rightarrow> (s2, False, None)
                   | (s2, Some e) \<Rightarrow>
                       if e = ValueError \<or> e = TypeError
                       then (case update_next_check d s2 of (s3, err) \<Rightarrow> (s3, False, err))
                       else (s2, False, Some e))
                else (s1, False, None)))"

text \<open>\<^verbatim>\<open>Scheduler._check_daily_schedule(schedule, now)\<close>.\<close>

definition check_daily_schedule ::
  "download_queue \<Rightarrow> int \<Rightarrow> ambient \<Rightarrow> schedule \<Rightarrow> schedule \<times> bool \<times> error option" where
  "check_daily_schedule dq now d s =
     (case daily_window s now of
        Inl e \<Rightarrow> (s, False, Some e)
      | Inr w \<Rightarrow>
          if start_dt w \<le> now \<and> now \<le> end_dt w then in_window dq now d s (end_dt w)
          else if now < start_dt w then before_window now d s
          else
            (case item s ''status'' of
               Inl e \<Rightarrow> (s, False, Some e)
             | Inr st \<Rightarrow>
                 if st = PStr ''active'' \<or> st = PStr ''download_started'' then
                   (case update_next_check d
                           (s(''status'' \<mapsto> PStr ''pending'', ''last_check'' \<mapsto> PNone,
                              ''active_browser_id'' \<mapsto> PNone, ''manual_stop'' \<mapsto> PBool False)) of
                      (s2, err) \<Rightarrow> (s2, False, err))
                 else (s, False, None)))"

text \<open>The \<^verbatim>\<open>try\<close> block of \<^verbatim>\<open>Scheduler._check_schedules\<close>.\<close>

definition check_body ::
  "download_queue \<Rightarrow> int \<Rightarrow> ambient \<Rightarrow> schedule \<Rightarrow> schedule \<times> bool \<times> error option" where
  "check_body dq now d s =
     (if truthy (pyget s ''daily'') then check_daily_schedule dq now d s
      else
        (case regular_window s of
           Inl e \<Rightarrow> (s, False, Some e)
         | Inr (start, end) \<Rightarrow>
             if now > end then
               (case item s ''repeat'' of
                  Inl e \<Rightarrow> (s, False, Some e)
                | Inr rp \<Rightarrow>
                    if truthy rp then
                      (case reschedule_next_week d s of (s1, err) \<Rightarrow> (s1, False, err))
                    else
                      (case item s ''status'' of
                         Inl e \<Rightarrow> (s, False, Some e)
                       | Inr st \<Rightarrow>
                           (let s1 = (if st \<noteq> PStr ''download_started''
                                      then s(''status'' \<mapsto> PStr ''completed'') else s)
                            in (s1(''active_browser_id'' \<mapsto> PNone, ''manual_stop'' \<mapsto> PBool False),
                                False, None))))
             else if start \<le> now \<and> now \<le> end then in_window dq now d s end
             else if now < start then before_window now d s
             else (s, False, None)))"

text \<open>One pass of the loop of \<^verbatim>\<open>_check_schedules\<close>.\<close>

definition check_one :: "download_queue \<Rightarrow> int \<Rightarrow> ambient \<Rightarrow> schedule \<Rightarrow> outcome" where
  "check_one dq now d s =
     (case item s ''status'' of
        Inl e \<Rightarrow> \<lparr>after = s, spawned = False, logged = None, escaped = Some e\<rparr>
      | Inr st \<Rightarrow>
          if st = PStr ''completed'' \<and> \<not> truthy (pyget s ''daily'')
          then \<lparr>after = s, spawned = False, logged = None, escaped = None\<rparr>
          else caught (check_body dq now d s))"

text \<open>
  \<^verbatim>\<open>Scheduler._check_schedules()\<close>, with \<^verbatim>\<open>self.save_schedules()\<close> after the loop.
\<close>

definition check_schedules ::
  "download_queue \<Rightarrow> int \<Rightarrow> (nat \<Rightarrow> ambient) \<Rightarrow> schedule list \<Rightarrow> tick" where
  "check_schedules dq now env schedules = run_tick (\<lambda>i. check_one dq now (env i)) schedules"

section \<open>The schedule list of \<^verbatim>\<open>Scheduler\<close> and its control operations\<close>

text \<open>
  The state of a \<^verbatim>\<open>Scheduler\<close>: the list in memory, and every list
  \<^verbatim>\<open>save_schedules\<close> has handed to \<^verbatim>\<open>json.dump\<close>, oldest first.
  \<^verbatim>\<open>save_schedules\<close> catches and logs a failure of the disk itself.
\<close>

record scheduler =
  schedules :: "schedule list"
  written :: "schedule list list"

definition save_schedules :: "scheduler \<Rightarrow> scheduler" where
  "save_schedules st = st\<lparr>written := written st @ [schedules st]\<rparr>"

text \<open>\<^verbatim>\<open>str(n)\<close> for a natural number, as in \<^verbatim>\<open>str(int(time.time() * 1000))\<close>.\<close>

fun str_nat :: "nat \<Rightarrow> string" where
  "str_nat n =
     (if n < 10 then [char_of (48 + n)]
      else str_nat (n div 10) @ [char_of (48 + n mod 10)])"

text \<open>
  \<^verbatim>\<open>Scheduler.add_schedule\<close>. \<open>millis\<close> is \<^verbatim>\<open>int(time.time() * 1000)\<close> and
  \<open>created\<close> the clock read for \<^verbatim>\<open>created_at\<close>. An exception of
  \<^verbatim>\<open>_update_next_check\<close> leaves the method before the record is appended.
\<close>

definition new_schedule ::
  "nat \<Rightarrow> int \<Rightarrow> pyval \<Rightarrow> pyval \<Rightarrow> pyval \<Rightarrow> pyval \<Rightarrow> pyval \<Rightarrow> pyval \<Rightarrow> pyval \<Rightarrow> pyval \<Rightarrow> pyval \<Rightarrow> schedule" where
  "new_schedule millis created url start_time end_time repeat daily name resolution framerate format =
     [''id'' \<mapsto> PStr (str_nat millis),
      ''url'' \<mapsto> url,
      ''name'' \<mapsto> name,
      ''resolution'' \<mapsto> resolution,
      ''framerate'' \<mapsto> framerate,
      ''format'' \<mapsto> format,
      ''start_time'' \<mapsto> start_time,
      ''end_time'' \<mapsto> end_time,
      ''repeat'' \<mapsto> repeat,
      ''daily'' \<mapsto> daily,
      ''status'' \<mapsto> PStr ''pending'',
      ''next_check'' \<mapsto> PNone,
      ''last_check'' \<mapsto> PNone,
      ''created_at'' \<mapsto> PStamp created]"

definition add_schedule ::
  "nat \<Rightarrow> int \<Rightarrow> ambient \<Rightarrow> pyval \<Rightarrow> pyval \<Rightarrow> pyval \<Rightarrow> pyval \<Rightarrow> pyval \<Rightarrow> pyval \<Rightarrow> pyval \<Rightarrow> pyval \<Rightarrow> pyval \<Rightarrow>
   scheduler \<Rightarrow> (error + schedule) \<times> scheduler" where
  "add_schedule millis created d url start_time end_time repeat daily name resolution framerate format st =
     (case update_next_check d
             (new_schedule millis created url start_time end_time repeat daily name
                resolution framerate format) of
        (s, Some e) \<Rightarrow> (Inl e, st)
      | (s, None) \<Rightarrow> (Inr s, save_schedules (st\<lparr>schedules := schedules st @ [s]\<rparr>)))"

text \<open>
  \<^verbatim>\<open>[s for s in schedules if s['id'] != schedule_id]\<close>: the comprehension of both
  \<^verbatim>\<open>remove_schedule\<close> methods.
\<close>

fun without_id :: "pyval \<Rightarrow> schedule list \<Rightarrow> error + schedule list" where
  "without_id schedule_id [] = Inr []"
| "without_id schedule_id (s # ss) =
     (case item s ''id'' of
        Inl e \<Rightarrow> Inl e
      | Inr v \<Rightarrow>
          (case without_id schedule_id ss of
             Inl e \<Rightarrow> Inl e
           | Inr rest \<Rightarrow> Inr (if v \<noteq> schedule_id then s # rest else rest)))"

text \<open>\<^verbatim>\<open>Scheduler.remove_schedule(schedule_id)\<close>.\<close>

definition remove_schedule :: "pyval \<Rightarrow> scheduler \<Rightarrow> (error + bool) \<times> scheduler" where
  "remove_schedule schedule_id st =
     (case without_id schedule_id (schedules st) of
        Inl e \<Rightarrow> (Inl e, st)
      | Inr kept \<Rightarrow> (Inr True, save_schedules (st\<lparr>schedules := kept\<rparr>)))"

text \<open>\<^verbatim>\<open>text.split(c)\<close> and \<^verbatim>\<open>text.startswith(p)\<close>.\<close>

fun split_on :: "char \<Rightarrow> string \<Rightarrow> string list" where
  "split_on c [] = [[]]"
| "split_on c (x # xs) =
     (if x = c then [] # split_on c xs
      else (case split_on c xs of
              p # ps \<Rightarrow> (x # p) # ps
            | [] \<Rightarrow> [[x]]))"

definition startswith :: "string \<Rightarrow> string \<Rightarrow> bool" where
  "startswith text p \<longleftrightarrow> take (length p) text = p"

text \<open>
  What \<^verbatim>\<open>move_to_next_slot\<close> does to the schedule that owns the stopped download:
  reset, then tomorrow's start for a daily schedule, next week for a repeating one,
  \<^verbatim>\<open>completed\<close> for a one-time schedule.
\<close>

definition next_slot :: "ambient \<Rightarrow> schedule \<Rightarrow> schedule \<times> error option" where
  "next_slot d s =
     (let s1 = s(''status'' \<mapsto> PStr ''pending'', ''active_browser_id'' \<mapsto> PNone,
                 ''manual_stop'' \<mapsto> PBool False)
      in if truthy (pyget s1 ''daily'') then
           (case and_then (item s1 ''start_time'') (\<lambda>start_time_str.
                 and_then (parse_clock start_time_str) (\<lambda>(start_hour, start_min).
                 and_then (time_replace start_hour start_min) (\<lambda>start_tod.
                   Inr (combine (date_of (clock d) + 1) start_tod)))) of
              Inl e \<Rightarrow> (s1, Some e)
            | Inr next_start \<Rightarrow> (s1(''next_check'' \<mapsto> PStamp next_start), None))
         else if truthy (pyget s1 ''repeat'') then reschedule_next_week d s1
         else update_next_check d (s1(''status'' \<mapsto> PStr ''completed'')))"

fun move_loop :: "ambient \<Rightarrow> string \<Rightarrow> string \<Rightarrow> schedule list \<Rightarrow> (error + bool) \<times> schedule list" where
  "move_loop d browser_id schedule_id [] = (Inr False, [])"
| "move_loop d browser_id schedule_id (s # ss) =
     (case item s ''id'' of
        Inl e \<Rightarrow> (Inl e, s # ss)
      | Inr v \<Rightarrow>
          if v = PStr schedule_id \<and> pyget s ''active_browser_id'' = PStr browser_id then
            (case next_slot d s of
               (s1, Some e) \<Rightarrow> (Inl e, s1 # ss)
             | (s1, None) \<Rightarrow> (Inr True, s1 # ss))
          else
            (case move_loop d browser_id schedule_id ss of
               (res, ss1) \<Rightarrow> (res, s # ss1)))"

text \<open>\<^verbatim>\<open>Scheduler.move_to_next_slot(browser_id)\<close>.\<close>

definition move_to_next_slot :: "ambient \<Rightarrow> string \<Rightarrow> scheduler \<Rightarrow> (error + bool) \<times> scheduler" where
  "move_to_next_slot d browser_id st =
     (if \<not> startswith browser_id ''sched_'' then (Inr False, st)
      else
        (let parts = split_on CHR ''_'' browser_id in
         if length parts < 2 then (Inr False, st)
         else
           (case move_loop d browser_id (parts ! 1) (schedules st) of
              (Inr True, ss) \<Rightarrow> (Inr True, save_schedules (st\<lparr>schedules := ss\<rparr>))
            | (res, ss) \<Rightarrow> (res, st\<lparr>schedules := ss\<rparr>))))"

section \<open>The schedule file of \<^verbatim>\<open>ScheduleRepository\<close>\<close>

text \<open>
  The file at \<^verbatim>\<open>SCHEDULES_FILE\<close> is missing, unreadable as JSON, or holds a list.
  The repository guards every method with one \<^verbatim>\<open>threading.Lock\<close>, which is not
  reentrant: a method entered while the lock is held never returns, which the model
  writes as \<open>None\<close>.
\<close>

datatype stored = NoFile | Unreadable | Stored "schedule list"

record repository =
  disk :: stored
  lock_held :: bool
  schedules_cache :: "schedule list option"

text \<open>\<^verbatim>\<open>ScheduleRepository._load_for_modification()\<close>.\<close>

fun load_for_modification :: "stored \<Rightarrow> schedule list" where
  "load_for_modification (Stored l) = l"
| "load_for_modification Unreadable = []"
| "load_for_modification NoFile = []"

text \<open>\<^verbatim>\<open>ScheduleRepository.save_schedules(schedules)\<close>.\<close>

definition repo_save_schedules :: "schedule list \<Rightarrow> repository \<Rightarrow> repository option" where
  "repo_save_schedules l rp =
     (if lock_held rp then None
      else Some (rp\<lparr>disk := Stored l, schedules_cache := Some l\<rparr>))"

text \<open>
  \<^verbatim>\<open>ScheduleRepository.remove_schedule(schedule_id)\<close>. It calls
  \<^verbatim>\<open>self.save_schedules\<close> inside its own \<^verbatim>\<open>with self.lock\<close>.
\<close>

definition repo_remove_schedule ::
  "pyval \<Rightarrow> repository \<Rightarrow> ((error + bool) \<times> repository) option" where
  "repo_remove_schedule schedule_id rp =
     (if lock_held rp then None
      else
        (let held = rp\<lparr>lock_held := True\<rparr>;
             loaded = load_for_modification (disk held);
             initial_count = length loaded
         in case without_id schedule_id loaded of
              Inl e \<Rightarrow> Some (Inl e, held\<lparr>lock_held := False\<rparr>)
            | Inr kept \<Rightarrow>
                if length kept < initial_count then
                  (case repo_save_schedules kept held of
                     None \<Rightarrow> None
                   | Some rp1 \<Rightarrow> Some (Inr True, rp1\<lparr>lock_held := False\<rparr>))
                else Some (Inr False, held\<lparr>lock_held := False\<rparr>)))"

section \<open>The browser launch queue of \<^verbatim>\<open>browser_service.py\<close>\<close>

text \<open>
  \<^verbatim>\<open>active_browsers\<close> maps a browser id to the placeholder dict of a request that
  has not been launched (kept as its \<^verbatim>\<open>status\<close>: queued or launching) or to the
  \<^verbatim>\<open>StreamDetector\<close> of a launched browser. It is a dict, kept in insertion order.
\<close>

datatype browser = Queued_dict string | Stream_detector

type_synonym browsers = "(string \<times> browser) list"

text \<open>
  The ids \<^verbatim>\<open>_ensure_chrome_closed\<close> collects: the entries that are not a dict.
  \<^verbatim>\<open>get_browser_status\<close> answers for exactly these with the detector's status.
\<close>

definition running :: "browsers \<Rightarrow> string list" where
  "running ab = map fst (filter (\<lambda>p. snd p = Stream_detector) ab)"

text \<open>The ids whose placeholder says launching.\<close>

definition launching :: "browsers \<Rightarrow> string list" where
  "launching ab = map fst (filter (\<lambda>p. snd p = Queued_dict ''launching'') ab)"

text \<open>
  \<^verbatim>\<open>BrowserService.close_browser(browser_id)\<close>: False for an unknown id; a
  placeholder is removed; a detector is closed (an exception of \<^verbatim>\<open>detector.close()\<close>
  is caught) and removed.
\<close>

definition close_browser :: "string \<Rightarrow> browsers \<Rightarrow> bool \<times> browsers" where
  "close_browser browser_id ab =
     (case map_of ab browser_id of
        None \<Rightarrow> (False, ab)
      | Some (Queued_dict status) \<Rightarrow> (True, AList.delete browser_id ab)
      | Some Stream_detector \<Rightarrow> (True, AList.delete browser_id ab))"

text \<open>
  The first statements of the queue processor for a request: the placeholder of the
  request, when there is one, gets the status launching.
\<close>

definition mark_launching :: "string \<Rightarrow> browsers \<Rightarrow> browsers" where
  "mark_launching browser_id ab =
     (case map_of ab browser_id of
        Some (Queued_dict status) \<Rightarrow> AList.update browser_id (Queued_dict ''launching'') ab
      | Some Stream_detector \<Rightarrow> ab
      | None \<Rightarrow> ab)"

text \<open>
  Where the queue processor thread stands: waiting for a request; holding the request it
  took from the queue; past the launching mark; inside \<^verbatim>\<open>_ensure_chrome_closed\<close> with
  the ids it still has to close; inside \<^verbatim>\<open>_launch_browser_internal\<close> with the
  detector stored and \<^verbatim>\<open>detector.start_browser\<close> running.
\<close>

datatype processor = Idle | Taken string | Marked string | Closing string "string list"
  | Starting string

record coordinator =
  active_browsers :: browsers
  browser_queue :: "string list"
  queue_processor :: processor

text \<open>
  The threads meet in \<^verbatim>\<open>active_browsers\<close> under \<^verbatim>\<open>queue_lock\<close> and in the
  queue, so a run of the service is a sequence of these events: a caller of
  \<^verbatim>\<open>start_browser\<close> stores its placeholder; it puts its request on the queue; some
  thread calls \<^verbatim>\<open>close_browser\<close>; the queue processor does its next step (the flag
  is the result of \<^verbatim>\<open>detector.start_browser\<close>, read in the last step only); the
  queue processor's \<^verbatim>\<open>except\<close> clause ends its work on the request. The sleeps of
  \<^verbatim>\<open>_ensure_chrome_closed\<close> and its polling of the process table change nothing
  here.
\<close>

datatype event = Placeholder string | Put string | Close string | Work bool | Crash

fun work :: "bool \<Rightarrow> coordinator \<Rightarrow> coordinator" where
  "work ok c =
     (case queue_processor c of
        Idle \<Rightarrow>
          (case browser_queue c of
             [] \<Rightarrow> c
           | request # rest \<Rightarrow> c\<lparr>browser_queue := rest, queue_processor := Taken request\<rparr>)
      | Taken browser_id \<Rightarrow>
          c\<lparr>active_browsers := mark_launching browser_id (active_browsers c),
            queue_processor := Marked browser_id\<rparr>
      | Marked browser_id \<Rightarrow>
          c\<lparr>queue_processor := Closing browser_id (running (active_browsers c))\<rparr>
      | Closing browser_id (bid # browsers_to_close) \<Rightarrow>
          c\<lparr>active_browsers := snd (close_browser bid (active_browsers c)),
            queue_processor := Closing browser_id browsers_to_close\<rparr>
      | Closing browser_id [] \<Rightarrow>
          c\<lparr>active_browsers := AList.update browser_id Stream_detector (active_browsers c),
            queue_processor := Starting browser_id\<rparr>
      | Starting browser_id \<Rightarrow>
          (if ok then c\<lparr>queue_processor := Idle\<rparr>
           else c\<lparr>active_browsers := AList.delete browser_id (active_browsers c),
                  queue_processor := Idle\<rparr>))"

fun step :: "event \<Rightarrow> coordinator \<Rightarrow> coordinator" where
  "step (Placeholder browser_id) c =
     c\<lparr>active_browsers := AList.update browser_id (Queued_dict ''queued'') (active_browsers c)\<rparr>"
| "step (Put browser_id) c = c\<lparr>browser_queue := browser_queue c @ [browser_id]\<rparr>"
| "step (Close browser_id) c =
     c\<lparr>active_browsers := snd (close_browser browser_id (active_browsers c))\<rparr>"
| "step (Work ok) c = work ok c"
| "step Crash c = c\<lparr>queue_processor := Idle\<rparr>"

text \<open>The service after a sequence of events, from its state at construction.\<close>

definition started :: coordinator where
  "started = \<lparr>active_browsers = [], browser_queue = [], queue_processor = Idle\<rparr>"

definition run :: "event list \<Rightarrow> coordinator" where
  "run events = fold step events started"

section \<open>Example records\<close>

text \<open>A record that holds an id and a status only.\<close>

definition example_pending :: "string \<Rightarrow> schedule" where
  "example_pending i = [''id'' \<mapsto> PStr i, ''status'' \<mapsto> PStr ''pending'']"

text \<open>
  Instants of the examples: day \<open>d\<close> at \<open>h:m\<close>. Day 738885 is 2024-01-01, the
  day count of \<^verbatim>\<open>date(2024, 1, 1).toordinal() - 1\<close>.
\<close>

definition at_time :: "int \<Rightarrow> int \<Rightarrow> int \<Rightarrow> int" where
  "at_time d h m = combine d ((h * 60 + m) * minute_us)"

definition jan_1_2024 :: int where
  "jan_1_2024 = 738885"

text \<open>
  A regular schedule as \<^verbatim>\<open>add_schedule\<close> builds it, with the window
  2024-01-01T10:00 to 2024-01-01T12:00, in a given status.
\<close>

definition example_regular :: "bool \<Rightarrow> string \<Rightarrow> schedule" where
  "example_regular rp st =
     [''id'' \<mapsto> PStr ''1704099600000'',
      ''url'' \<mapsto> PStr ''https://example.org/live'',
      ''name'' \<mapsto> PNone,
      ''resolution'' \<mapsto> PStr ''1080p'',
      ''framerate'' \<mapsto> PStr ''any'',
      ''format'' \<mapsto> PStr ''mp4'',
      ''start_time'' \<mapsto> PStamp (at_time jan_1_2024 10 0),
      ''end_time'' \<mapsto> PStamp (at_time jan_1_2024 12 0),
      ''repeat'' \<mapsto> PBool rp,
      ''daily'' \<mapsto> PBool False,
      ''status'' \<mapsto> PStr st,
      ''next_check'' \<mapsto> PNone,
      ''last_check'' \<mapsto> PNone,
      ''created_at'' \<mapsto> PStamp (at_time jan_1_2024 9 0)]"

text \<open>A daily schedule with the window 23:00 to 01:00, in a given status.\<close>

definition example_daily :: "string \<Rightarrow> schedule" where
  "example_daily st =
     [''id'' \<mapsto> PStr ''1704099600001'',
      ''url'' \<mapsto> PStr ''https://example.org/night'',
      ''name'' \<mapsto> PStr ''night'',
      ''resolution'' \<mapsto> PStr ''1080p'',
      ''framerate'' \<mapsto> PStr ''any'',
      ''format'' \<mapsto> PStr ''mp4'',
      ''start_time'' \<mapsto> PClock 23 0,
      ''end_time'' \<mapsto> PClock 1 0,
      ''repeat'' \<mapsto> PBool False,
      ''daily'' \<mapsto> PBool True,
      ''status'' \<mapsto> PStr st,
      ''next_check'' \<mapsto> PNone,
      ''last_check'' \<mapsto> PNone,
      ''created_at'' \<mapsto> PStamp (at_time jan_1_2024 9 0)]"

text \<open>
  The daily example in status download_started, with the id of its browser session and
  \<^verbatim>\<open>manual_stop\<close> set.
\<close>

definition example_stopped :: schedule where
  "example_stopped =
     (example_daily ''download_started'')
       (''active_browser_id'' \<mapsto> PStr ''sched_1704099600001_1704150000'',
        ''manual_stop'' \<mapsto> PBool True)"

text \<open>
  The record \<^verbatim>\<open>add_schedule\<close> returns at 2024-01-01T09:00 for a one-time window
  10:00 to 12:00 of that day.
\<close>

definition example_added :: schedule where
  "example_added =
     (new_schedule 1704099600000 (at_time jan_1_2024 9 0) (PStr ''https://example.org/live'')
        (PStamp (at_time jan_1_2024 10 0)) (PStamp (at_time jan_1_2024 12 0))
        (PBool False) (PBool False) PNone (PStr ''1080p'') (PStr ''any'') (PStr ''mp4''))
     (''next_check'' \<mapsto> PStamp (at_time jan_1_2024 10 0))"

text \<open>
  What the queue processor maintains: at most one entry is a detector; while it closes
  browsers, every detector is among the ids it still has to close; while it starts a
  browser, no other entry is a detector.
\<close>

definition single_flight :: "coordinator \<Rightarrow> bool" where
  "single_flight c \<longleftrightarrow>
     length (running (active_browsers c)) \<le> 1
     \<and> (case queue_processor c of
          Closing browser_id browsers_to_close \<Rightarrow>
            set (running (active_browsers c)) \<subseteq> set browsers_to_close
        | Starting browser_id \<Rightarrow> set (running (active_browsers c)) \<subseteq> {browser_id}
        | Idle \<Rightarrow> True
        | Taken browser_id \<Rightarrow> True
        | Marked browser_id \<Rightarrow> True)"

text \<open>Two schedules due in the same tick: both Check Tasks ask for a browser.\<close>

definition two_requests :: "event list" where
  "two_requests =
     [Placeholder ''sched_1_170'', Put ''sched_1_170'',
      Placeholder ''sched_2_170'', Put ''sched_2_170'',
      Work True, Work True, Work True, Work True, Work True,
      Work True, Work True]"

text \<open>
  A repeating regular schedule whose \<^verbatim>\<open>start_time\<close> is 9999-12-28T10:00, less than a
  week before \<^verbatim>\<open>datetime.max\<close>, and whose \<^verbatim>\<open>end_time\<close> is 2024-01-01T12:00; day
  3652055 is 9999-12-28. \<^verbatim>\<open>add_schedule\<close> stores the two texts as it gets them.
\<close>

definition example_far :: schedule where
  "example_far = (example_regular True ''active'')(''start_time'' \<mapsto> PStamp (at_time 3652055 10 0))"

text \<open>
  Records of a schedule file that lack a key: one without \<^verbatim>\<open>status\<close>, and one
  without \<^verbatim>\<open>id\<close> that has no window either.
\<close>

definition example_no_status :: schedule where
  "example_no_status = [''id'' \<mapsto> PStr ''7'']"

definition example_no_id :: schedule where
  "example_no_id = [''status'' \<mapsto> PStr ''pending'']"

section \<open>Facts about the model\<close>

subsection \<open>Removing a schedule\<close>

lemma without_id_filter:
  "\<forall>s\<in>set ss. ''id'' \<in> dom s \<Longrightarrow>
   without_id sid ss = Inr (filter (\<lambda>s. s ''id'' \<noteq> Some sid) ss)"
  by (induction ss) (auto simp: item_def split: option.splits)

lemma example_pending_id: "example_pending i ''id'' = Some (PStr i)"
  by (simp add: example_pending_def)

text \<open>
  C10. When every record of the list carries an id, \<^verbatim>\<open>Scheduler.remove_schedule\<close>
  returns True for every \<open>sid\<close>, whether or not a record has that id: the list
  becomes the records whose id differs from \<open>sid\<close>, in their old order, and is saved.
  \<^verbatim>\<open>ScheduleRepository.remove_schedule\<close> returns False, and changes nothing, when
  no stored record has the id.
\<close>

theorem remove_schedule_results:
  assumes ids: "\<forall>s\<in>set (schedules st). ''id'' \<in> dom s"
  shows "remove_schedule sid st =
           (Inr True,
            \<lparr>schedules = filter (\<lambda>s. s ''id'' \<noteq> Some sid) (schedules st),
             written = written st @ [filter (\<lambda>s. s ''id'' \<noteq> Some sid) (schedules st)]\<rparr>)
         \<and> (\<forall>rp. \<not> lock_held rp
                \<and> (\<forall>s\<in>set (load_for_modification (disk rp)). \<exists>v. s ''id'' = Some v \<and> v \<noteq> sid)
              \<longrightarrow> repo_remove_schedule sid rp = Some (Inr False, rp))"
proof (intro conjI allI impI)
  show "remove_schedule sid st =
           (Inr True,
            \<lparr>schedules = filter (\<lambda>s. s ''id'' \<noteq> Some sid) (schedules st),
             written = written st @ [filter (\<lambda>s. s ''id'' \<noteq> Some sid) (schedules st)]\<rparr>)"
    using ids by (simp add: remove_schedule_def without_id_filter save_schedules_def)
next
  fix rp :: repository
  assume a: "\<not> lock_held rp
     \<and> (\<forall>s\<in>set (load_for_modification (disk rp)). \<exists>v. s ''id'' = Some v \<and> v \<noteq> sid)"
  let ?l = "load_for_modification (disk rp)"
  from a have ids': "\<forall>s\<in>set ?l. ''id'' \<in> dom s" by auto
  from a have "filter (\<lambda>s. s ''id'' \<noteq> Some sid) ?l = ?l" by (auto intro!: filter_True)
  with without_id_filter[OF ids', of sid] have w: "without_id sid ?l = Inr ?l" by simp
  from a have "rp\<lparr>lock_held := False\<rparr> = rp" by simp
  with a w show "repo_remove_schedule sid rp = Some (Inr False, rp)"
    by (simp add: repo_remove_schedule_def Let_def)
qed

theorem remove_schedule_results_witness:
  "remove_schedule (PStr ''9'') \<lparr>schedules = [example_pending ''1'', example_pending ''2''], written = []\<rparr>
     = (Inr True, \<lparr>schedules = [example_pending ''1'', example_pending ''2''],
                   written = [[example_pending ''1'', example_pending ''2'']]\<rparr>)
   \<and> remove_schedule (PStr ''1'')
        \<lparr>schedules = [example_pending ''1'', example_pending ''2'', example_pending ''1''], written = []\<rparr>
     = (Inr True, \<lparr>schedules = [example_pending ''2''], written = [[example_pending ''2'']]\<rparr>)
   \<and> repo_remove_schedule (PStr ''9'')
        \<lparr>disk = Stored [example_pending ''1'', example_pending ''2''], lock_held = False,
         schedules_cache = None\<rparr>
     = Some (Inr False,
             \<lparr>disk = Stored [example_pending ''1'', example_pending ''2''], lock_held = False,
              schedules_cache = None\<rparr>)"
proof -
  let ?a = "\<lparr>schedules = [example_pending ''1'', example_pending ''2''], written = []\<rparr>"
  let ?b = "\<lparr>schedules = [example_pending ''1'', example_pending ''2'', example_pending ''1''],
             written = []\<rparr>"
  have ha: "\<forall>s\<in>set (schedules ?a). ''id'' \<in> dom s"
    by (simp add: example_pending_id dom_def)
  have hb: "\<forall>s\<in>set (schedules ?b). ''id'' \<in> dom s"
    by (simp add: example_pending_id dom_def)
  note a = remove_schedule_results[OF ha, of "PStr ''9''"]
  note b = remove_schedule_results[OF hb, of "PStr ''1''"]
  from a have 1: "remove_schedule (PStr ''9'') ?a
     = (Inr True, \<lparr>schedules = [example_pending ''1'', example_pending ''2''],
                   written = [[example_pending ''1'', example_pending ''2'']]\<rparr>)"
    by (simp add: example_pending_id)
  from b have 2: "remove_schedule (PStr ''1'') ?b
     = (Inr True, \<lparr>schedules = [example_pending ''2''], written = [[example_pending ''2'']]\<rparr>)"
    by (simp add: example_pending_id)
  from a have "\<forall>rp. \<not> lock_held rp
                \<and> (\<forall>s\<in>set (load_for_modification (disk rp)). \<exists>v. s ''id'' = Some v \<and> v \<noteq> PStr ''9'')
              \<longrightarrow> repo_remove_schedule (PStr ''9'') rp = Some (Inr False, rp)"
    by (rule conjunct2)
  then have 3: "repo_remove_schedule (PStr ''9'')
        \<lparr>disk = Stored [example_pending ''1'', example_pending ''2''], lock_held = False,
         schedules_cache = None\<rparr>
     = Some (Inr False,
             \<lparr>disk = Stored [example_pending ''1'', example_pending ''2''], lock_held = False,
              schedules_cache = None\<rparr>)"
    by (simp add: example_pending_id)
  from 1 2 3 show ?thesis by (intro conjI)
qed

subsection \<open>The next check\<close>

lemma next_in_window_bounds:
  "uniform_5_8 r \<Longrightarrow> now \<le> e \<Longrightarrow>
   min (now + 5 * minute_us) e \<le> next_in_window now r e
   \<and> next_in_window now r e \<le> min (now + 8 * minute_us) e"
  by (auto simp: uniform_5_8_def next_in_window_def Let_def)

lemma daily_next_check:
  "daily_window s now = Inr w \<Longrightarrow>
   fst (daily_calculate_next_check s now r) ''next_check'' =
     Some (PStamp (if now < start_dt w then start_dt w
                   else if now \<le> end_dt w then next_in_window now r (end_dt w)
                   else if spans_midnight w \<and> time_of now < start_clock w
                        then combine (date_of now) (start_clock w)
                        else combine (date_of now + 1) (start_clock w)))"
  by (simp add: daily_calculate_next_check_def Let_def)

lemma regular_next_check:
  "regular_window s = Inr (st, en) \<Longrightarrow>
   fst (regular_calculate_next_check s now r) ''next_check'' =
     Some (if now < st then PStamp st
           else if now \<le> en then PStamp (next_in_window now r en)
           else PNone)"
  by (simp add: regular_calculate_next_check_def)

lemma daily_calc_frame:
  "k \<noteq> ''next_check'' \<Longrightarrow> fst (daily_calculate_next_check s now r) k = s k"
  by (simp add: daily_calculate_next_check_def Let_def split: sum.splits)

lemma regular_calc_frame:
  "k \<noteq> ''next_check'' \<Longrightarrow> fst (regular_calculate_next_check s now r) k = s k"
  by (simp add: regular_calculate_next_check_def split: sum.splits prod.splits)

lemma daily_window_cong:
  "s' ''start_time'' = s ''start_time'' \<Longrightarrow> s' ''end_time'' = s ''end_time'' \<Longrightarrow>
   daily_window s' now = daily_window s now"
  by (simp add: daily_window_def item_def)

lemma regular_window_cong:
  "s' ''start_time'' = s ''start_time'' \<Longrightarrow> s' ''end_time'' = s ''end_time'' \<Longrightarrow>
   regular_window s' = regular_window s"
  by (simp add: regular_window_def item_def)

lemma daily_window_after_calc:
  "daily_window (fst (daily_calculate_next_check s now r)) t = daily_window s t"
  by (rule daily_window_cong) (simp_all add: daily_calc_frame)

lemma regular_window_after_calc:
  "regular_window (fst (regular_calculate_next_check s now r)) = regular_window s"
  by (rule regular_window_cong) (simp_all add: regular_calc_frame)

lemma example_regular_window:
  "regular_window (example_regular rp st) = Inr (at_time jan_1_2024 10 0, at_time jan_1_2024 12 0)"
  by (simp add: regular_window_def example_regular_def item_def and_then_def)

lemma at_time_value: "at_time d h m = d * 86400000000 + (h * 60 + m) * 60000000"
  by (simp add: at_time_def combine_def day_us_def minute_us_def)

lemma example_daily_window_night:
  "daily_window (example_daily st) (at_time (jan_1_2024 + 1) 0 30) =
     Inr \<lparr>start_dt = at_time jan_1_2024 23 0, end_dt = at_time (jan_1_2024 + 1) 1 0,
          spans_midnight = True, start_clock = 23 * 60 * minute_us\<rparr>"
  by (simp add: daily_window_def example_daily_def item_def and_then_def time_replace_def
        Let_def at_time_value jan_1_2024_def date_of_def time_of_def combine_def day_us_def
        minute_us_def days_def)


text \<open>
  C7. With a draw between 5 and 8 minutes, \<^verbatim>\<open>calculate_next_check\<close> of either
  calculator sets \<^verbatim>\<open>next_check\<close>, for \<open>now\<close> inside the resolved window, to an
  instant that is at least 5 and at most 8 minutes after \<open>now\<close>, both bounds cut at
  the window end; and for \<open>now\<close> before the window start, to the window start itself.
\<close>

theorem calculate_next_check_cadence:
  assumes r: "uniform_5_8 r"
  shows "(\<forall>w. daily_window s now = Inr w \<longrightarrow>
            (start_dt w \<le> now \<and> now \<le> end_dt w \<longrightarrow>
               (\<exists>nc. fst (daily_calculate_next_check s now r) ''next_check'' = Some (PStamp nc)
                  \<and> min (now + 5 * minute_us) (end_dt w) \<le> nc
                  \<and> nc \<le> min (now + 8 * minute_us) (end_dt w)))
          \<and> (now < start_dt w \<longrightarrow>
               fst (daily_calculate_next_check s now r) ''next_check'' = Some (PStamp (start_dt w))))
       \<and> (\<forall>st en. regular_window s = Inr (st, en) \<longrightarrow>
            (st \<le> now \<and> now \<le> en \<longrightarrow>
               (\<exists>nc. fst (regular_calculate_next_check s now r) ''next_check'' = Some (PStamp nc)
                  \<and> min (now + 5 * minute_us) en \<le> nc
                  \<and> nc \<le> min (now + 8 * minute_us) en))
          \<and> (now < st \<longrightarrow>
               fst (regular_calculate_next_check s now r) ''next_check'' = Some (PStamp st)))"
  using next_in_window_bounds[OF r]
  by (auto simp: daily_next_check regular_next_check)

theorem calculate_next_check_cadence_witness:
  "uniform_5_8 (6 * minute_us)
   \<and> regular_window (example_regular False ''active'')
       = Inr (at_time jan_1_2024 10 0, at_time jan_1_2024 12 0)
   \<and> (\<exists>nc. fst (regular_calculate_next_check (example_regular False ''active'')
                  (at_time jan_1_2024 11 57) (6 * minute_us)) ''next_check'' = Some (PStamp nc)
          \<and> at_time jan_1_2024 12 0 \<le> nc \<and> nc \<le> at_time jan_1_2024 12 0)
   \<and> fst (regular_calculate_next_check (example_regular False ''active'')
            (at_time jan_1_2024 9 0) (6 * minute_us)) ''next_check''
       = Some (PStamp (at_time jan_1_2024 10 0))
   \<and> (\<exists>nc. fst (daily_calculate_next_check (example_daily ''active'')
                  (at_time (jan_1_2024 + 1) 0 30) (6 * minute_us)) ''next_check'' = Some (PStamp nc)
          \<and> at_time (jan_1_2024 + 1) 0 35 \<le> nc \<and> nc \<le> at_time (jan_1_2024 + 1) 0 38)"
proof -
  have r: "uniform_5_8 (6 * minute_us)"
    by (simp add: uniform_5_8_def minute_us_def)
  note reg = example_regular_window[of False "''active''"]
  note day = example_daily_window_night[of "''active''"]
  from calculate_next_check_cadence[OF r, of "example_regular False ''active''" "at_time jan_1_2024 11 57"] reg
  have 1: "\<exists>nc. fst (regular_calculate_next_check (example_regular False ''active'')
                  (at_time jan_1_2024 11 57) (6 * minute_us)) ''next_check'' = Some (PStamp nc)
          \<and> at_time jan_1_2024 12 0 \<le> nc \<and> nc \<le> at_time jan_1_2024 12 0"
    by (auto simp: at_time_value jan_1_2024_def minute_us_def)
  from calculate_next_check_cadence[OF r, of "example_regular False ''active''" "at_time jan_1_2024 9 0"] reg
  have 2: "fst (regular_calculate_next_check (example_regular False ''active'')
            (at_time jan_1_2024 9 0) (6 * minute_us)) ''next_check''
       = Some (PStamp (at_time jan_1_2024 10 0))"
    by (simp add: at_time_value jan_1_2024_def minute_us_def)
  from calculate_next_check_cadence[OF r, of "example_daily ''active''" "at_time (jan_1_2024 + 1) 0 30"] day
  have 3: "\<exists>nc. fst (daily_calculate_next_check (example_daily ''active'')
                  (at_time (jan_1_2024 + 1) 0 30) (6 * minute_us)) ''next_check'' = Some (PStamp nc)
          \<and> at_time (jan_1_2024 + 1) 0 35 \<le> nc \<and> nc \<le> at_time (jan_1_2024 + 1) 0 38"
    by (auto simp: at_time_value jan_1_2024_def minute_us_def)
  from r reg 1 2 3 show ?thesis by (intro conjI)
qed

text \<open>
  C5, as stated, fails: inside the window 10:00 to 12:00, at 10:30, a first call that
  draws 8 minutes sets \<^verbatim>\<open>next_check\<close> to 10:38 and a second call that draws
  5 minutes sets it to 10:35, which is earlier.
\<close>

theorem second_next_check_earlier:
  "uniform_5_8 (8 * minute_us) \<and> uniform_5_8 (5 * minute_us)
   \<and> fst (regular_calculate_next_check (example_regular False ''active'')
            (at_time jan_1_2024 10 30) (8 * minute_us)) ''next_check''
       = Some (PStamp (at_time jan_1_2024 10 38))
   \<and> fst (regular_calculate_next_check
            (fst (regular_calculate_next_check (example_regular False ''active'')
                    (at_time jan_1_2024 10 30) (8 * minute_us)))
            (at_time jan_1_2024 10 30) (5 * minute_us)) ''next_check''
       = Some (PStamp (at_time jan_1_2024 10 35))
   \<and> at_time jan_1_2024 10 35 < at_time jan_1_2024 10 38"
  by (simp add: regular_next_check regular_window_after_calc example_regular_window
        uniform_5_8_def next_in_window_def Let_def at_time_value jan_1_2024_def minute_us_def)

text \<open>
  C5, amended. Two calls of \<^verbatim>\<open>calculate_next_check\<close> in succession at the same
  \<open>now\<close>, with draws between 5 and 8 minutes: outside the window the second call
  leaves the \<^verbatim>\<open>next_check\<close> of the first; inside the window neither result exceeds
  the window end, the second lies between 5 and 8 minutes after \<open>now\<close> (cut at the
  window end), and it is at most 3 minutes earlier than the first.
\<close>

theorem calculate_next_check_twice:
  assumes r1: "uniform_5_8 r1" and r2: "uniform_5_8 r2"
  shows "(\<forall>w. daily_window s now = Inr w \<longrightarrow>
            (\<exists>a b. fst (daily_calculate_next_check s now r1) ''next_check'' = Some (PStamp a)
               \<and> fst (daily_calculate_next_check (fst (daily_calculate_next_check s now r1)) now r2)
                    ''next_check'' = Some (PStamp b)
               \<and> (if start_dt w \<le> now \<and> now \<le> end_dt w
                   then a \<le> end_dt w \<and> b \<le> end_dt w
                        \<and> min (now + 5 * minute_us) (end_dt w) \<le> b
                        \<and> b \<le> min (now + 8 * minute_us) (end_dt w)
                        \<and> a - 3 * minute_us \<le> b
                   else b = a)))
       \<and> (\<forall>st en. regular_window s = Inr (st, en) \<longrightarrow>
            (if st \<le> now \<and> now \<le> en
             then (\<exists>a b. fst (regular_calculate_next_check s now r1) ''next_check'' = Some (PStamp a)
                     \<and> fst (regular_calculate_next_check (fst (regular_calculate_next_check s now r1))
                              now r2) ''next_check'' = Some (PStamp b)
                     \<and> a \<le> en \<and> b \<le> en
                     \<and> min (now + 5 * minute_us) en \<le> b
                     \<and> b \<le> min (now + 8 * minute_us) en
                     \<and> a - 3 * minute_us \<le> b)
             else fst (regular_calculate_next_check (fst (regular_calculate_next_check s now r1))
                         now r2) ''next_check''
                  = fst (regular_calculate_next_check s now r1) ''next_check''))"
proof (intro conjI allI impI)
  fix w assume w: "daily_window s now = Inr w"
  then have w': "daily_window (fst (daily_calculate_next_check s now r1)) now = Inr w"
    by (simp add: daily_window_after_calc)
  show "\<exists>a b. fst (daily_calculate_next_check s now r1) ''next_check'' = Some (PStamp a)
               \<and> fst (daily_calculate_next_check (fst (daily_calculate_next_check s now r1)) now r2)
                    ''next_check'' = Some (PStamp b)
               \<and> (if start_dt w \<le> now \<and> now \<le> end_dt w
                   then a \<le> end_dt w \<and> b \<le> end_dt w
                        \<and> min (now + 5 * minute_us) (end_dt w) \<le> b
                        \<and> b \<le> min (now + 8 * minute_us) (end_dt w)
                        \<and> a - 3 * minute_us \<le> b
                   else b = a)"
    using next_in_window_bounds[OF r1, of now "end_dt w"] next_in_window_bounds[OF r2, of now "end_dt w"]
    by (simp add: daily_next_check[OF w] daily_next_check[OF w']) (auto simp: min_def split: if_splits)
next
  fix st en assume w: "regular_window s = Inr (st, en)"
  then have w': "regular_window (fst (regular_calculate_next_check s now r1)) = Inr (st, en)"
    by (simp add: regular_window_after_calc)
  show "if st \<le> now \<and> now \<le> en
             then (\<exists>a b. fst (regular_calculate_next_check s now r1) ''next_check'' = Some (PStamp a)
                     \<and> fst (regular_calculate_next_check (fst (regular_calculate_next_check s now r1))
                              now r2) ''next_check'' = Some (PStamp b)
                     \<and> a \<le> en \<and> b \<le> en
                     \<and> min (now + 5 * minute_us) en \<le> b
                     \<and> b \<le> min (now + 8 * minute_us) en
                     \<and> a - 3 * minute_us \<le> b)
             else fst (regular_calculate_next_check (fst (regular_calculate_next_check s now r1))
                         now r2) ''next_check''
                  = fst (regular_calculate_next_check s now r1) ''next_check''"
    using next_in_window_bounds[OF r1, of now en] next_in_window_bounds[OF r2, of now en]
    by (simp add: regular_next_check[OF w] regular_next_check[OF w']) (auto simp: min_def split: if_splits)
qed


theorem calculate_next_check_twice_witness:
  "uniform_5_8 (8 * minute_us) \<and> uniform_5_8 (5 * minute_us)
   \<and> regular_window (example_regular False ''active'')
       = Inr (at_time jan_1_2024 10 0, at_time jan_1_2024 12 0)
   \<and> (\<exists>a b. fst (regular_calculate_next_check (example_regular False ''active'')
                    (at_time jan_1_2024 10 30) (8 * minute_us)) ''next_check'' = Some (PStamp a)
          \<and> fst (regular_calculate_next_check
                   (fst (regular_calculate_next_check (example_regular False ''active'')
                           (at_time jan_1_2024 10 30) (8 * minute_us)))
                   (at_time jan_1_2024 10 30) (5 * minute_us)) ''next_check'' = Some (PStamp b)
          \<and> a \<le> at_time jan_1_2024 12 0 \<and> b \<le> at_time jan_1_2024 12 0
          \<and> a - 3 * minute_us \<le> b)
   \<and> fst (regular_calculate_next_check
            (fst (regular_calculate_next_check (example_regular False ''active'')
                    (at_time jan_1_2024 9 0) (8 * minute_us)))
            (at_time jan_1_2024 9 0) (5 * minute_us)) ''next_check''
       = fst (regular_calculate_next_check (example_regular False ''active'')
                (at_time jan_1_2024 9 0) (8 * minute_us)) ''next_check''"
proof -
  have r1: "uniform_5_8 (8 * minute_us)" and r2: "uniform_5_8 (5 * minute_us)"
    by (simp_all add: uniform_5_8_def minute_us_def)
  note reg = example_regular_window[of False "''active''"]
  from calculate_next_check_twice[OF r1 r2, of "example_regular False ''active''" "at_time jan_1_2024 10 30"] reg
  have 1: "\<exists>a b. fst (regular_calculate_next_check (example_regular False ''active'')
                    (at_time jan_1_2024 10 30) (8 * minute_us)) ''next_check'' = Some (PStamp a)
          \<and> fst (regular_calculate_next_check
                   (fst (regular_calculate_next_check (example_regular False ''active'')
                           (at_time jan_1_2024 10 30) (8 * minute_us)))
                   (at_time jan_1_2024 10 30) (5 * minute_us)) ''next_check'' = Some (PStamp b)
          \<and> a \<le> at_time jan_1_2024 12 0 \<and> b \<le> at_time jan_1_2024 12 0
          \<and> a - 3 * minute_us \<le> b"
    by (auto simp: at_time_value jan_1_2024_def)
  from calculate_next_check_twice[OF r1 r2, of "example_regular False ''active''" "at_time jan_1_2024 9 0"] reg
  have 2: "fst (regular_calculate_next_check
            (fst (regular_calculate_next_check (example_regular False ''active'')
                    (at_time jan_1_2024 9 0) (8 * minute_us)))
            (at_time jan_1_2024 9 0) (5 * minute_us)) ''next_check''
       = fst (regular_calculate_next_check (example_regular False ''active'')
                (at_time jan_1_2024 9 0) (8 * minute_us)) ''next_check''"
    by (auto simp: at_time_value jan_1_2024_def)
  from r1 r2 reg 1 2 show ?thesis by (intro conjI)
qed

subsection \<open>Windows that span midnight\<close>

lemma time_replace_range:
  "time_replace h m = Inr t \<Longrightarrow> 0 \<le> t \<and> t < day_us"
  by (auto simp: time_replace_def day_us_def minute_us_def split: if_splits)

lemma now_split: "now = combine (date_of now) (time_of now)"
  by (simp add: combine_def date_of_def time_of_def)

lemma time_of_range: "0 \<le> time_of now \<and> time_of now < day_us"
  by (simp add: time_of_def day_us_def)

lemma daily_window_clocks:
  assumes "s ''start_time'' = Some (PClock sh sm)" and "s ''end_time'' = Some (PClock eh em)"
    and "time_replace sh sm = Inr st" and "time_replace eh em = Inr en"
  shows "daily_window s now =
     Inr (if eh < sh \<or> (eh = sh \<and> em < sm) then
            (if time_of now < st
             then \<lparr>start_dt = combine (date_of now - 1) st, end_dt = combine (date_of now) en,
                   spans_midnight = True, start_clock = st\<rparr>
             else \<lparr>start_dt = combine (date_of now) st, end_dt = combine (date_of now) en + days 1,
                   spans_midnight = True, start_clock = st\<rparr>)
          else \<lparr>start_dt = combine (date_of now) st, end_dt = combine (date_of now) en,
                spans_midnight = False, start_clock = st\<rparr>)"
  using assms by (simp add: daily_window_def item_def and_then_def Let_def)

lemma early_window_order:
  assumes st: "0 \<le> st \<and> st < day_us" and en: "0 \<le> en \<and> en < day_us"
    and early: "time_of now < st"
  shows "combine (date_of now - 1) st \<le> now"
    and "time_of now \<le> en \<Longrightarrow> now \<le> combine (date_of now) en"
    and "en < time_of now \<Longrightarrow> combine (date_of now) en < now"
proof -
  have n: "now = date_of now * day_us + time_of now"
    using now_split[of now] by (simp add: combine_def)
  have t: "0 \<le> time_of now" using time_of_range by simp
  have "combine (date_of now - 1) st = date_of now * day_us - day_us + st"
    by (simp add: combine_def algebra_simps)
  with st t n show "combine (date_of now - 1) st \<le> now" by linarith
  show "time_of now \<le> en \<Longrightarrow> now \<le> combine (date_of now) en"
    using n by (simp add: combine_def)
  show "en < time_of now \<Longrightarrow> combine (date_of now) en < now"
    using n by (simp add: combine_def)
qed


lemma log_id_upd: "k \<noteq> ''id'' \<Longrightarrow> log_id (s(k \<mapsto> v)) = log_id s"
  by (simp add: log_id_def)

lemma example_daily_lookup:
  "example_daily st ''start_time'' = Some (PClock 23 0)"
  "example_daily st ''end_time'' = Some (PClock 1 0)"
  "example_daily st ''status'' = Some (PStr st)"
  "example_daily st ''next_check'' = Some PNone"
  "example_daily st ''daily'' = Some (PBool True)"
  "example_daily st ''id'' = Some (PStr ''1704099600001'')"
  "example_daily st ''name'' = Some (PStr ''night'')"
  "example_daily st ''url'' = Some (PStr ''https://example.org/night'')"
  by (simp_all add: example_daily_def)

text \<open>
  C3, amended. For a daily schedule whose window spans midnight, at a \<open>now\<close> whose
  time of day is earlier than the start clock, \<^verbatim>\<open>check_schedule\<close> resolves the
  window as yesterday's start through today's end. When the time of day is not later
  than the end clock (00:30 for 23:00 to 01:00), \<open>now\<close> is inside that window and the
  in-window branch runs: a pending schedule becomes active and is due. When it is later
  than the end clock (22:00), that window lies before \<open>now\<close> and the branch for a
  passed window runs: an active or download_started schedule is reset to pending with
  \<^verbatim>\<open>last_check\<close> cleared and \<^verbatim>\<open>next_check\<close> at today's start, any other schedule
  is left as it is, and the answer is False. \<^verbatim>\<open>Scheduler._check_daily_schedule\<close>
  takes the same two branches.
\<close>

theorem spanning_window_check:
  assumes start: "s ''start_time'' = Some (PClock sh sm)"
    and "end": "s ''end_time'' = Some (PClock eh em)"
    and st: "time_replace sh sm = Inr st"
    and en: "time_replace eh em = Inr en"
    and spans: "eh < sh \<or> (eh = sh \<and> em < sm)"
    and early: "time_of now < st"
  shows "daily_window s now =
           Inr \<lparr>start_dt = combine (date_of now - 1) st, end_dt = combine (date_of now) en,
                spans_midnight = True, start_clock = st\<rparr>
       \<and> (time_of now \<le> en \<longrightarrow>
            combine (date_of now - 1) st \<le> now \<and> now \<le> combine (date_of now) en
            \<and> daily_check_schedule s now r = calc_in_window s now
            \<and> (s ''status'' = Some (PStr ''pending'') \<longrightarrow>
                 daily_check_schedule s now r = (s(''status'' \<mapsto> PStr ''active''), Inr True))
            \<and> check_daily_schedule dq now d s = in_window dq now d s (combine (date_of now) en))
       \<and> (en < time_of now \<longrightarrow>
            combine (date_of now) en < now
            \<and> (\<forall>v. s ''status'' = Some v \<longrightarrow>
                 daily_check_schedule s now r =
                   (if v = PStr ''active'' \<or> v = PStr ''download_started''
                    then (s(''status'' \<mapsto> PStr ''pending'', ''last_check'' \<mapsto> PNone,
                            ''next_check'' \<mapsto> PStamp (combine (date_of now) st)),
                          case log_id s of None \<Rightarrow> Inr False | Some e \<Rightarrow> Inl e)
                    else (s, Inr False))
                 \<and> check_daily_schedule dq now d s =
                   (if v = PStr ''active'' \<or> v = PStr ''download_started''
                    then (case update_next_check d
                                 (s(''status'' \<mapsto> PStr ''pending'', ''last_check'' \<mapsto> PNone,
                                    ''active_browser_id'' \<mapsto> PNone,
                                    ''manual_stop'' \<mapsto> PBool False)) of
                            (s2, err) \<Rightarrow> (s2, False, err))
                    else (s, False, None))))"
proof -
  let ?w = "\<lparr>start_dt = combine (date_of now - 1) st, end_dt = combine (date_of now) en,
             spans_midnight = True, start_clock = st\<rparr>"
  have w: "daily_window s now = Inr ?w"
    using daily_window_clocks[OF start "end" st en, of now] spans early by simp
  note ord = early_window_order[OF time_replace_range[OF st] time_replace_range[OF en] early]
  have inside: "daily_check_schedule s now r = calc_in_window s now" if "time_of now \<le> en"
    using ord(1) ord(2)[OF that] by (simp add: daily_check_schedule_def w)
  have pending: "calc_in_window s now = (s(''status'' \<mapsto> PStr ''active''), Inr True)"
    if "s ''status'' = Some (PStr ''pending'')"
    using that by (simp add: calc_in_window_def item_def Let_def)
  have passed: "daily_check_schedule s now r =
                   (if v = PStr ''active'' \<or> v = PStr ''download_started''
                    then (s(''status'' \<mapsto> PStr ''pending'', ''last_check'' \<mapsto> PNone,
                            ''next_check'' \<mapsto> PStamp (combine (date_of now) st)),
                          case log_id s of None \<Rightarrow> Inr False | Some e \<Rightarrow> Inl e)
                    else (s, Inr False))"
    if late: "en < time_of now" and v: "s ''status'' = Some v" for v
  proof -
    let ?s1 = "s(''status'' \<mapsto> PStr ''pending'', ''last_check'' \<mapsto> PNone)"
    have w1: "daily_window ?s1 now = Inr ?w"
      using w daily_window_cong[of ?s1 s now] by simp
    have after: "combine (date_of now) en < now" using ord(3)[OF late] .
    have notbefore: "\<not> now < combine (date_of now - 1) st" using ord(1) by simp
    have calc: "daily_calculate_next_check ?s1 now r =
                  (?s1(''next_check'' \<mapsto> PStamp (combine (date_of now) st)), log_id s)"
      using after notbefore early
      by (simp add: daily_calculate_next_check_def w1 Let_def log_id_upd)
    show ?thesis
      using after notbefore v
      by (simp add: daily_check_schedule_def w item_def calc then_false_def split: option.splits)
  qed
  have inside': "check_daily_schedule dq now d s = in_window dq now d s (combine (date_of now) en)"
    if "time_of now \<le> en"
    using ord(1) ord(2)[OF that] by (simp add: check_daily_schedule_def w)
  have passed': "check_daily_schedule dq now d s =
                   (if v = PStr ''active'' \<or> v = PStr ''download_started''
                    then (case update_next_check d
                                 (s(''status'' \<mapsto> PStr ''pending'', ''last_check'' \<mapsto> PNone,
                                    ''active_browser_id'' \<mapsto> PNone,
                                    ''manual_stop'' \<mapsto> PBool False)) of
                            (s2, err) \<Rightarrow> (s2, False, err))
                    else (s, False, None))"
    if late: "en < time_of now" and v: "s ''status'' = Some v" for v
    using ord(1) ord(3)[OF late] v
    by (simp add: check_daily_schedule_def w item_def)
  show ?thesis
    using w ord inside pending passed inside' passed' by simp
qed


lemma at_time_parts:
  assumes "0 \<le> h * 60 + m" and "h * 60 + m < 1440"
  shows "date_of (at_time d h m) = d" and "time_of (at_time d h m) = (h * 60 + m) * minute_us"
proof -
  let ?x = "(h * 60 + m) * minute_us"
  have x: "0 \<le> ?x \<and> ?x < day_us"
    using assms by (simp add: minute_us_def day_us_def)
  have a: "at_time d h m = ?x + day_us * d"
    by (simp add: at_time_def combine_def)
  have "day_us \<noteq> 0" by (simp add: day_us_def)
  then have "(?x + day_us * d) div day_us = d + ?x div day_us"
    by (rule div_mult_self2)
  with x a show "date_of (at_time d h m) = d"
    by (simp add: date_of_def div_pos_pos_trivial)
  have "(?x + day_us * d) mod day_us = ?x mod day_us"
    by (rule mod_mult_self2)
  with x a show "time_of (at_time d h m) = ?x"
    by (simp add: time_of_def mod_pos_pos_trivial)
qed

theorem spanning_window_check_witness:
  "example_daily ''pending'' ''start_time'' = Some (PClock 23 0)
   \<and> example_daily ''pending'' ''end_time'' = Some (PClock 1 0)
   \<and> time_replace 23 0 = Inr ((23 * 60 + 0) * minute_us)
   \<and> time_replace 1 0 = Inr ((1 * 60 + 0) * minute_us)
   \<and> ((1::int) < 23 \<or> ((1::int) = 23 \<and> (0::int) < 0))
   \<and> time_of (at_time (jan_1_2024 + 1) 0 30) < (23 * 60 + 0) * minute_us
   \<and> time_of (at_time (jan_1_2024 + 1) 0 30) \<le> (1 * 60 + 0) * minute_us
   \<and> daily_window (example_daily ''pending'') (at_time (jan_1_2024 + 1) 0 30) =
        Inr \<lparr>start_dt = at_time jan_1_2024 23 0, end_dt = at_time (jan_1_2024 + 1) 1 0,
             spans_midnight = True, start_clock = (23 * 60 + 0) * minute_us\<rparr>
   \<and> daily_check_schedule (example_daily ''pending'') (at_time (jan_1_2024 + 1) 0 30) (6 * minute_us)
        = ((example_daily ''pending'')(''status'' \<mapsto> PStr ''active''), Inr True)
   \<and> time_of (at_time jan_1_2024 22 0) < (23 * 60 + 0) * minute_us
   \<and> (1 * 60 + 0) * minute_us < time_of (at_time jan_1_2024 22 0)
   \<and> daily_check_schedule (example_daily ''active'') (at_time jan_1_2024 22 0) (6 * minute_us)
        = ((example_daily ''active'')(''status'' \<mapsto> PStr ''pending'', ''last_check'' \<mapsto> PNone,
              ''next_check'' \<mapsto> PStamp (at_time jan_1_2024 23 0)), Inr False)"
proof -
  have tr: "time_replace 23 0 = Inr ((23 * 60 + 0) * minute_us)"
           "time_replace 1 0 = Inr ((1 * 60 + 0) * minute_us)"
    by (simp_all add: time_replace_def)
  have sp: "(1::int) < 23 \<or> ((1::int) = 23 \<and> (0::int) < 0)" by simp
  have night: "date_of (at_time (jan_1_2024 + 1) 0 30) = jan_1_2024 + 1"
              "time_of (at_time (jan_1_2024 + 1) 0 30) = (0 * 60 + 30) * minute_us"
    by (simp_all add: at_time_parts)
  have eve: "date_of (at_time jan_1_2024 22 0) = jan_1_2024"
            "time_of (at_time jan_1_2024 22 0) = (22 * 60 + 0) * minute_us"
    by (simp_all add: at_time_parts)
  have night': "date_of (combine (jan_1_2024 + 1) (30 * minute_us)) = jan_1_2024 + 1"
    using night(1) by (simp add: at_time_def)
  have eve': "date_of (combine jan_1_2024 (1320 * minute_us)) = jan_1_2024"
    using eve(1) by (simp add: at_time_def)
  have e1: "time_of (at_time (jan_1_2024 + 1) 0 30) < (23 * 60 + 0) * minute_us"
    and e2: "time_of (at_time (jan_1_2024 + 1) 0 30) \<le> (1 * 60 + 0) * minute_us"
    by (simp_all add: night minute_us_def)
  have l1: "time_of (at_time jan_1_2024 22 0) < (23 * 60 + 0) * minute_us"
    and l2: "(1 * 60 + 0) * minute_us < time_of (at_time jan_1_2024 22 0)"
    by (simp_all add: eve minute_us_def)
  note a = spanning_window_check[OF example_daily_lookup(1,2)[of "''pending''"] tr sp e1,
             of "6 * minute_us"]
  note b = spanning_window_check[OF example_daily_lookup(1,2)[of "''active''"] tr sp l1,
             of "6 * minute_us"]
  from a have w: "daily_window (example_daily ''pending'') (at_time (jan_1_2024 + 1) 0 30) =
        Inr \<lparr>start_dt = at_time jan_1_2024 23 0, end_dt = at_time (jan_1_2024 + 1) 1 0,
             spans_midnight = True, start_clock = (23 * 60 + 0) * minute_us\<rparr>"
    by (simp add: night' at_time_def)
  from a e2 example_daily_lookup(3)[of "''pending''"]
  have c1: "daily_check_schedule (example_daily ''pending'')
          (at_time (jan_1_2024 + 1) 0 30) (6 * minute_us)
        = ((example_daily ''pending'')(''status'' \<mapsto> PStr ''active''), Inr True)"
    by blast
  from b l2 example_daily_lookup(3)[of "''active''"]
  have "daily_check_schedule (example_daily ''active'') (at_time jan_1_2024 22 0)
          (6 * minute_us)
        = (if PStr ''active'' = PStr ''active'' \<or> PStr ''active'' = PStr ''download_started''
           then ((example_daily ''active'')(''status'' \<mapsto> PStr ''pending'', ''last_check'' \<mapsto> PNone,
                   ''next_check'' \<mapsto>
                     PStamp (combine (date_of (at_time jan_1_2024 22 0)) ((23 * 60 + 0) * minute_us))),
                 case log_id (example_daily ''active'') of None \<Rightarrow> Inr False | Some e \<Rightarrow> Inl e)
           else (example_daily ''active'', Inr False))"
    by blast
  then have c2: "daily_check_schedule (example_daily ''active'') (at_time jan_1_2024 22 0)
          (6 * minute_us)
        = ((example_daily ''active'')(''status'' \<mapsto> PStr ''pending'', ''last_check'' \<mapsto> PNone,
              ''next_check'' \<mapsto> PStamp (at_time jan_1_2024 23 0)), Inr False)"
    by (simp add: example_daily_lookup eve' at_time_def log_id_def)
  from example_daily_lookup(1,2)[of "''pending''"] tr sp e1 e2 w c1 l1 l2 c2
  show ?thesis by (intro conjI)
qed

text \<open>
  C3, as stated, fails at 22:00: for the window 23:00 to 01:00 the resolved window is
  yesterday 23:00 to today 01:00, which is over at 22:00 and does not start after it;
  \<^verbatim>\<open>check_schedule\<close> takes the branch for a passed window and leaves a pending
  schedule without \<^verbatim>\<open>next_check\<close> as it is, where the branch for \<open>now\<close> before
  the window would set \<^verbatim>\<open>next_check\<close> to the window start.
\<close>

theorem evening_is_after_window:
  "daily_window (example_daily ''pending'') (at_time jan_1_2024 22 0) =
     Inr \<lparr>start_dt = at_time (jan_1_2024 - 1) 23 0, end_dt = at_time jan_1_2024 1 0,
          spans_midnight = True, start_clock = (23 * 60 + 0) * minute_us\<rparr>
   \<and> at_time jan_1_2024 1 0 < at_time jan_1_2024 22 0
   \<and> \<not> at_time jan_1_2024 22 0 < at_time (jan_1_2024 - 1) 23 0
   \<and> example_daily ''pending'' ''next_check'' = Some PNone
   \<and> daily_check_schedule (example_daily ''pending'') (at_time jan_1_2024 22 0) (6 * minute_us)
        = (example_daily ''pending'', Inr False)"
proof -
  have tr: "time_replace 23 0 = Inr ((23 * 60 + 0) * minute_us)"
           "time_replace 1 0 = Inr ((1 * 60 + 0) * minute_us)"
    by (simp_all add: time_replace_def)
  have eve: "date_of (at_time jan_1_2024 22 0) = jan_1_2024"
            "time_of (at_time jan_1_2024 22 0) = (22 * 60 + 0) * minute_us"
    by (simp_all add: at_time_parts)
  have eve': "date_of (combine jan_1_2024 (1320 * minute_us)) = jan_1_2024"
            "time_of (combine jan_1_2024 (1320 * minute_us)) = 1320 * minute_us"
    using eve by (simp_all add: at_time_def)
  have w: "daily_window (example_daily ''pending'') (at_time jan_1_2024 22 0) =
     Inr \<lparr>start_dt = at_time (jan_1_2024 - 1) 23 0, end_dt = at_time jan_1_2024 1 0,
          spans_midnight = True, start_clock = (23 * 60 + 0) * minute_us\<rparr>"
    using daily_window_clocks[OF example_daily_lookup(1,2)[of "''pending''"] tr,
            of "at_time jan_1_2024 22 0"]
    by (simp add: eve' at_time_def) (simp add: minute_us_def)
  have o1: "at_time jan_1_2024 1 0 < at_time jan_1_2024 22 0"
    and o2: "\<not> at_time jan_1_2024 22 0 < at_time (jan_1_2024 - 1) 23 0"
    by (simp_all add: at_time_value)
  have c: "daily_check_schedule (example_daily ''pending'') (at_time jan_1_2024 22 0) (6 * minute_us)
        = (example_daily ''pending'', Inr False)"
    using o1 o2 by (simp add: daily_check_schedule_def w item_def example_daily_lookup)
  from w o1 o2 example_daily_lookup(4)[of "''pending''"] c show ?thesis by (intro conjI)
qed

subsection \<open>One pass of the execution loops\<close>

lemma update_next_check_eq: "update_next_check d s = executor_update_next_check d s"
  by (simp add: update_next_check_def executor_update_next_check_def
        daily_calculate_next_check_def regular_calculate_next_check_def Let_def)

lemma executor_update_frame:
  "k \<noteq> ''next_check'' \<Longrightarrow> fst (executor_update_next_check d s) k = s k"
  by (simp add: executor_update_next_check_def Let_def daily_calc_frame regular_calc_frame)

lemma update_next_check_frame:
  "k \<noteq> ''next_check'' \<Longrightarrow> fst (update_next_check d s) k = s k"
  by (simp add: update_next_check_eq executor_update_frame)

lemma perform_check_frame:
  "k \<noteq> ''next_check'' \<Longrightarrow> fst (perform_check d s) k = s k"
  by (simp add: perform_check_def update_next_check_frame split: sum.splits prod.splits)
     (metis fst_conv update_next_check_frame)

lemma executor_perform_check_frame:
  "k \<noteq> ''next_check'' \<Longrightarrow> fst (executor_perform_check d s) k = s k"
  by (simp add: executor_perform_check_def split: sum.splits prod.splits)
     (metis fst_conv executor_update_frame)

lemma due_check_frame:
  "k \<noteq> ''next_check'' \<Longrightarrow> fst (due_check now d s) k = s k"
  by (simp add: due_check_def Let_def perform_check_frame split: sum.splits)

lemma after_caught: "after (caught p) = fst p"
  by (cases p) (simp add: caught_def split: option.splits)


lemma example_regular_lookup:
  "example_regular rp st ''start_time'' = Some (PStamp (at_time jan_1_2024 10 0))"
  "example_regular rp st ''end_time'' = Some (PStamp (at_time jan_1_2024 12 0))"
  "example_regular rp st ''status'' = Some (PStr st)"
  "example_regular rp st ''next_check'' = Some PNone"
  "example_regular rp st ''daily'' = Some (PBool False)"
  "example_regular rp st ''repeat'' = Some (PBool rp)"
  "example_regular rp st ''id'' = Some (PStr ''1704099600000'')"
  "example_regular rp st ''name'' = Some PNone"
  "example_regular rp st ''url'' = Some (PStr ''https://example.org/live'')"
  "example_regular rp st ''active_browser_id'' = None"
  "example_regular rp st ''manual_stop'' = None"
  by (simp_all add: example_regular_def)

lemma plus_timedelta_representable:
  "representable (t + delta) \<Longrightarrow> plus_timedelta t delta = Inr (t + delta)"
  by (simp add: plus_timedelta_def)

lemma plus_timedelta_overflow:
  "\<not> representable (t + delta) \<Longrightarrow> plus_timedelta t delta = Inl OverflowError"
  by (simp add: plus_timedelta_def)

lemma reschedule_next_week_fst:
  "regular_window s = Inr (st, en) \<Longrightarrow> representable (st + days 7) \<Longrightarrow>
   representable (en + days 7) \<Longrightarrow>
   fst (reschedule_next_week d s) =
     fst (update_next_check d
            (s(''start_time'' \<mapsto> PStamp (st + days 7), ''end_time'' \<mapsto> PStamp (en + days 7),
               ''status'' \<mapsto> PStr ''pending'', ''active_browser_id'' \<mapsto> PNone,
               ''manual_stop'' \<mapsto> PBool False)))"
  by (simp add: reschedule_next_week_def plus_timedelta_representable and_then_def Let_def
           split: prod.splits option.splits)

lemma reschedule_weekly_fst:
  "regular_window s = Inr (st, en) \<Longrightarrow> representable (st + days 7) \<Longrightarrow>
   representable (en + days 7) \<Longrightarrow>
   fst (reschedule_weekly d s) =
     fst (executor_update_next_check d
            (s(''start_time'' \<mapsto> PStamp (st + days 7), ''end_time'' \<mapsto> PStamp (en + days 7),
               ''status'' \<mapsto> PStr ''pending'')))"
  by (simp add: reschedule_weekly_def plus_timedelta_representable and_then_def Let_def
           split: prod.splits option.splits)

lemma reschedule_next_week_overflow:
  "regular_window s = Inr (st, en) \<Longrightarrow>
   \<not> representable (st + days 7) \<or> \<not> representable (en + days 7) \<Longrightarrow>
   reschedule_next_week d s = (s, Some OverflowError)"
  by (auto simp add: reschedule_next_week_def plus_timedelta_def and_then_def)

lemma reschedule_weekly_overflow:
  "regular_window s = Inr (st, en) \<Longrightarrow>
   \<not> representable (st + days 7) \<or> \<not> representable (en + days 7) \<Longrightarrow>
   reschedule_weekly d s = (s, Some OverflowError)"
  by (auto simp add: reschedule_weekly_def plus_timedelta_def and_then_def)

text \<open>
  C6, amended. A regular schedule with \<^verbatim>\<open>repeat\<close> set, not in status completed, whose
  \<^verbatim>\<open>end_time\<close> lies before \<open>now\<close>, and whose \<^verbatim>\<open>start_time\<close> and
  \<^verbatim>\<open>end_time\<close> are still instants of \<^verbatim>\<open>datetime\<close> seven days on: one pass of
  either execution loop moves \<^verbatim>\<open>start_time\<close> and \<^verbatim>\<open>end_time\<close> seven days on and
  sets the status to pending.
\<close>

theorem weekly_reschedule:
  assumes regular: "\<not> truthy (pyget s ''daily'')"
    and repeat: "s ''repeat'' = Some rp" "truthy rp"
    and status: "s ''status'' = Some v" "v \<noteq> PStr ''completed''"
    and window: "regular_window s = Inr (st, en)"
    and passed: "en < now"
    and in_range: "representable (st + 7 * day_us)" "representable (en + 7 * day_us)"
  shows "after (check_one dq now d s) ''start_time'' = Some (PStamp (st + 7 * day_us))
       \<and> after (check_one dq now d s) ''end_time'' = Some (PStamp (en + 7 * day_us))
       \<and> after (check_one dq now d s) ''status'' = Some (PStr ''pending'')
       \<and> after (execute_one now d s) ''start_time'' = Some (PStamp (st + 7 * day_us))
       \<and> after (execute_one now d s) ''end_time'' = Some (PStamp (en + 7 * day_us))
       \<and> after (execute_one now d s) ''status'' = Some (PStr ''pending'')"
proof -
  have c: "after (check_one dq now d s) = fst (reschedule_next_week d s)"
    using regular repeat status window passed
    by (simp add: check_one_def item_def after_caught check_body_def split: prod.splits)
  have e: "after (execute_one now d s) = fst (reschedule_weekly d s)"
    using regular repeat status window passed
    by (simp add: execute_one_def item_def after_caught execute_body_def split: prod.splits)
  have r: "representable (st + days 7)" "representable (en + days 7)"
    using in_range by (simp_all add: days_def)
  show ?thesis
    by (simp add: c e reschedule_next_week_fst[OF window r] reschedule_weekly_fst[OF window r]
          update_next_check_frame executor_update_frame days_def)
qed

lemma at_time_plus_days: "at_time d h m + n * day_us = at_time (d + n) h m"
  by (simp add: at_time_def combine_def algebra_simps)

theorem weekly_reschedule_witness:
  "\<not> truthy (pyget (example_regular True ''active'') ''daily'')
   \<and> example_regular True ''active'' ''repeat'' = Some (PBool True) \<and> truthy (PBool True)
   \<and> example_regular True ''active'' ''status'' = Some (PStr ''active'')
   \<and> PStr ''active'' \<noteq> PStr ''completed''
   \<and> regular_window (example_regular True ''active'')
        = Inr (at_time jan_1_2024 10 0, at_time jan_1_2024 12 0)
   \<and> at_time jan_1_2024 12 0 < at_time jan_1_2024 12 1
   \<and> representable (at_time jan_1_2024 10 0 + 7 * day_us)
   \<and> representable (at_time jan_1_2024 12 0 + 7 * day_us)
   \<and> after (check_one Map.empty (at_time jan_1_2024 12 1)
              \<lparr>clock = at_time jan_1_2024 12 1, jitter = 6 * minute_us\<rparr>
              (example_regular True ''active'')) ''start_time''
        = Some (PStamp (at_time (jan_1_2024 + 7) 10 0))
   \<and> after (check_one Map.empty (at_time jan_1_2024 12 1)
              \<lparr>clock = at_time jan_1_2024 12 1, jitter = 6 * minute_us\<rparr>
              (example_regular True ''active'')) ''end_time''
        = Some (PStamp (at_time (jan_1_2024 + 7) 12 0))
   \<and> after (check_one Map.empty (at_time jan_1_2024 12 1)
              \<lparr>clock = at_time jan_1_2024 12 1, jitter = 6 * minute_us\<rparr>
              (example_regular True ''active'')) ''status''
        = Some (PStr ''pending'')
   \<and> after (execute_one (at_time jan_1_2024 12 1)
              \<lparr>clock = at_time jan_1_2024 12 1, jitter = 6 * minute_us\<rparr>
              (example_regular True ''active'')) ''start_time''
        = Some (PStamp (at_time (jan_1_2024 + 7) 10 0))
   \<and> after (execute_one (at_time jan_1_2024 12 1)
              \<lparr>clock = at_time jan_1_2024 12 1, jitter = 6 * minute_us\<rparr>
              (example_regular True ''active'')) ''end_time''
        = Some (PStamp (at_time (jan_1_2024 + 7) 12 0))
   \<and> after (execute_one (at_time jan_1_2024 12 1)
              \<lparr>clock = at_time jan_1_2024 12 1, jitter = 6 * minute_us\<rparr>
              (example_regular True ''active'')) ''status''
        = Some (PStr ''pending'')"
proof -
  let ?s = "example_regular True ''active''"
  let ?d = "\<lparr>clock = at_time jan_1_2024 12 1, jitter = 6 * minute_us\<rparr>"
  have h1: "\<not> truthy (pyget ?s ''daily'')"
    by (simp add: pyget_def example_regular_lookup)
  have h2: "truthy (PBool True)" and h3: "PStr ''active'' \<noteq> PStr ''completed''"
    by simp_all
  have h4: "at_time jan_1_2024 12 0 < at_time jan_1_2024 12 1"
    by (simp add: at_time_value)
  have h5: "representable (at_time jan_1_2024 10 0 + 7 * day_us)"
    and h6: "representable (at_time jan_1_2024 12 0 + 7 * day_us)"
    by (simp_all add: representable_def datetime_max_def at_time_value day_us_def jan_1_2024_def)
  note th = weekly_reschedule[OF h1 example_regular_lookup(6) h2 example_regular_lookup(3) h3
              example_regular_window h4 h5 h6, of Map.empty ?d, unfolded at_time_plus_days]
  from h1 example_regular_lookup(6)[of True "''active''"] h2
       example_regular_lookup(3)[of True "''active''"] h3
       example_regular_window[of True "''active''"] h4 h5 h6 th
  show ?thesis by (intro conjI) blast+
qed


lemma example_far_lookup:
  "example_far ''status'' = Some (PStr ''active'')"
  "example_far ''repeat'' = Some (PBool True)"
  "example_far ''daily'' = Some (PBool False)"
  "example_far ''id'' = Some (PStr ''1704099600000'')"
  "example_far ''start_time'' = Some (PStamp (at_time 3652055 10 0))"
  "example_far ''end_time'' = Some (PStamp (at_time jan_1_2024 12 0))"
  by (simp_all add: example_far_def example_regular_lookup)

lemma example_far_window:
  "regular_window example_far = Inr (at_time 3652055 10 0, at_time jan_1_2024 12 0)"
  by (simp add: regular_window_def item_def and_then_def example_far_lookup)

lemma example_far_overflow: "\<not> representable (at_time 3652055 10 0 + days 7)"
  by (simp add: representable_def datetime_max_def at_time_value days_def day_us_def)

text \<open>
  C6, as stated, fails: a repeating regular schedule in status active with
  \<^verbatim>\<open>start_time\<close> 9999-12-28T10:00 and \<^verbatim>\<open>end_time\<close> 2024-01-01T12:00, at 12:01 of
  2024-01-01. \<^verbatim>\<open>start_dt + timedelta(days=7)\<close> raises OverflowError before a key is
  written: the pass of either loop logs the error and leaves \<^verbatim>\<open>start_time\<close>,
  \<^verbatim>\<open>end_time\<close> and the status as they were.
\<close>

theorem weekly_overflow_not_advanced:
  "\<not> truthy (pyget example_far ''daily'')
   \<and> example_far ''repeat'' = Some (PBool True)
   \<and> example_far ''status'' = Some (PStr ''active'')
   \<and> regular_window example_far = Inr (at_time 3652055 10 0, at_time jan_1_2024 12 0)
   \<and> at_time jan_1_2024 12 0 < at_time jan_1_2024 12 1
   \<and> check_one Map.empty (at_time jan_1_2024 12 1)
        \<lparr>clock = at_time jan_1_2024 12 1, jitter = 6 * minute_us\<rparr> example_far
      = \<lparr>after = example_far, spawned = False, logged = Some OverflowError, escaped = None\<rparr>
   \<and> execute_one (at_time jan_1_2024 12 1)
        \<lparr>clock = at_time jan_1_2024 12 1, jitter = 6 * minute_us\<rparr> example_far
      = \<lparr>after = example_far, spawned = False, logged = Some OverflowError, escaped = None\<rparr>
   \<and> after (check_one Map.empty (at_time jan_1_2024 12 1)
              \<lparr>clock = at_time jan_1_2024 12 1, jitter = 6 * minute_us\<rparr> example_far)
         ''start_time'' \<noteq> Some (PStamp (at_time 3652055 10 0 + 7 * day_us))
   \<and> after (check_one Map.empty (at_time jan_1_2024 12 1)
              \<lparr>clock = at_time jan_1_2024 12 1, jitter = 6 * minute_us\<rparr> example_far)
         ''end_time'' \<noteq> Some (PStamp (at_time jan_1_2024 12 0 + 7 * day_us))
   \<and> after (check_one Map.empty (at_time jan_1_2024 12 1)
              \<lparr>clock = at_time jan_1_2024 12 1, jitter = 6 * minute_us\<rparr> example_far)
         ''status'' \<noteq> Some (PStr ''pending'')
   \<and> after (execute_one (at_time jan_1_2024 12 1)
              \<lparr>clock = at_time jan_1_2024 12 1, jitter = 6 * minute_us\<rparr> example_far)
         ''start_time'' \<noteq> Some (PStamp (at_time 3652055 10 0 + 7 * day_us))
   \<and> after (execute_one (at_time jan_1_2024 12 1)
              \<lparr>clock = at_time jan_1_2024 12 1, jitter = 6 * minute_us\<rparr> example_far)
         ''end_time'' \<noteq> Some (PStamp (at_time jan_1_2024 12 0 + 7 * day_us))
   \<and> after (execute_one (at_time jan_1_2024 12 1)
              \<lparr>clock = at_time jan_1_2024 12 1, jitter = 6 * minute_us\<rparr> example_far)
         ''status'' \<noteq> Some (PStr ''pending'')"
proof -
  let ?now = "at_time jan_1_2024 12 1"
  let ?d = "\<lparr>clock = at_time jan_1_2024 12 1, jitter = 6 * minute_us\<rparr>"
  have h1: "\<not> truthy (pyget example_far ''daily'')"
    by (simp add: pyget_def example_far_lookup)
  have h4: "at_time jan_1_2024 12 0 < ?now"
    by (simp add: at_time_value)
  have rn: "reschedule_next_week ?d example_far = (example_far, Some OverflowError)"
    by (rule reschedule_next_week_overflow[OF example_far_window])
       (simp add: example_far_overflow)
  have rw: "reschedule_weekly ?d example_far = (example_far, Some OverflowError)"
    by (rule reschedule_weekly_overflow[OF example_far_window])
       (simp add: example_far_overflow)
  have c: "check_one Map.empty ?now ?d example_far
      = \<lparr>after = example_far, spawned = False, logged = Some OverflowError, escaped = None\<rparr>"
    using h1 h4
    by (simp add: check_one_def check_body_def item_def example_far_lookup example_far_window
          rn caught_def log_id_def)
  have e: "execute_one ?now ?d example_far
      = \<lparr>after = example_far, spawned = False, logged = Some OverflowError, escaped = None\<rparr>"
    using h1 h4
    by (simp add: execute_one_def execute_body_def item_def example_far_lookup example_far_window
          rw caught_def log_id_def)
  have n1: "example_far ''start_time'' \<noteq> Some (PStamp (at_time 3652055 10 0 + 7 * day_us))"
    by (simp add: example_far_lookup day_us_def)
  have n2: "example_far ''end_time'' \<noteq> Some (PStamp (at_time jan_1_2024 12 0 + 7 * day_us))"
    by (simp add: example_far_lookup day_us_def)
  have n3: "example_far ''status'' \<noteq> Some (PStr ''pending'')"
    by (simp add: example_far_lookup)
  have a: "after (check_one Map.empty ?now ?d example_far) = example_far"
    and b: "after (execute_one ?now ?d example_far) = example_far"
    by (simp_all add: c e)
  from h1 example_far_lookup(2) example_far_lookup(1) example_far_window h4 c e n1 n2 n3
  show ?thesis unfolding a b by (intro conjI)
qed

subsection \<open>A one-time schedule whose window has passed\<close>

lemma oneshot_check_one:
  assumes "\<not> truthy (pyget s ''daily'')" and "s ''repeat'' = Some rp" and "\<not> truthy rp"
    and "s ''status'' = Some v" and "v \<noteq> PStr ''completed''"
    and "regular_window s = Inr (st, en)" and "en < now"
  shows "check_one dq now d s =
           \<lparr>after = (if v \<noteq> PStr ''download_started'' then s(''status'' \<mapsto> PStr ''completed'') else s)
                      (''active_browser_id'' \<mapsto> PNone, ''manual_stop'' \<mapsto> PBool False),
            spawned = False, logged = None, escaped = None\<rparr>"
  using assms
  by (simp add: check_one_def item_def check_body_def caught_def Let_def)

lemma oneshot_execute_one:
  assumes "\<not> truthy (pyget s ''daily'')" and "s ''repeat'' = Some rp" and "\<not> truthy rp"
    and "s ''status'' = Some v" and "v \<noteq> PStr ''completed''"
    and "regular_window s = Inr (st, en)" and "en < now"
  shows "execute_one now d s =
           \<lparr>after = (if v \<noteq> PStr ''download_started'' then s(''status'' \<mapsto> PStr ''completed'') else s),
            spawned = False, logged = None, escaped = None\<rparr>"
  using assms
  by (simp add: execute_one_def item_def execute_body_def caught_def Let_def)

text \<open>
  C4, as stated, fails for \<^verbatim>\<open>download_started\<close>: a one-time schedule in that status,
  one minute after its window, keeps the status in both execution loops.
\<close>

theorem download_started_not_completed:
  "\<not> truthy (pyget (example_regular False ''download_started'') ''daily'')
   \<and> example_regular False ''download_started'' ''repeat'' = Some (PBool False)
   \<and> regular_window (example_regular False ''download_started'')
        = Inr (at_time jan_1_2024 10 0, at_time jan_1_2024 12 0)
   \<and> at_time jan_1_2024 12 0 < at_time jan_1_2024 12 1
   \<and> after (check_one Map.empty (at_time jan_1_2024 12 1)
              \<lparr>clock = at_time jan_1_2024 12 1, jitter = 6 * minute_us\<rparr>
              (example_regular False ''download_started'')) ''status''
        = Some (PStr ''download_started'')
   \<and> after (execute_one (at_time jan_1_2024 12 1)
              \<lparr>clock = at_time jan_1_2024 12 1, jitter = 6 * minute_us\<rparr>
              (example_regular False ''download_started'')) ''status''
        = Some (PStr ''download_started'')"
proof -
  let ?s = "example_regular False ''download_started''"
  have h1: "\<not> truthy (pyget ?s ''daily'')"
    by (simp add: pyget_def example_regular_lookup)
  have h2: "\<not> truthy (PBool False)"
    and h3: "PStr ''download_started'' \<noteq> PStr ''completed''"
    by simp_all
  have h4: "at_time jan_1_2024 12 0 < at_time jan_1_2024 12 1"
    by (simp add: at_time_value)
  note c = oneshot_check_one[OF h1 example_regular_lookup(6) h2 example_regular_lookup(3) h3
             example_regular_window h4]
  note e = oneshot_execute_one[OF h1 example_regular_lookup(6) h2 example_regular_lookup(3) h3
             example_regular_window h4]
  show ?thesis
    using h1 h4 by (simp add: c e example_regular_lookup example_regular_window)
qed

text \<open>
  C4, amended. A schedule that is neither daily nor repeating, in status active or
  download_started, with \<^verbatim>\<open>end_time\<close> before \<open>now\<close>: in one pass of either loop
  the status active becomes completed and the status download_started stays; the pass
  of \<^verbatim>\<open>Scheduler._check_schedules\<close> raises nothing and sets \<^verbatim>\<open>active_browser_id\<close>
  to None and \<^verbatim>\<open>manual_stop\<close> to False; the pass of
  \<^verbatim>\<open>ScheduleExecutor.execute_schedules\<close> changes no key but the status.
\<close>

theorem oneshot_window_passed:
  assumes regular: "\<not> truthy (pyget s ''daily'')"
    and repeat: "s ''repeat'' = Some rp" "\<not> truthy rp"
    and status: "s ''status'' = Some v" "v = PStr ''active'' \<or> v = PStr ''download_started''"
    and window: "regular_window s = Inr (st, en)"
    and passed: "en < now"
  shows "after (check_one dq now d s) ''status''
           = Some (if v = PStr ''active'' then PStr ''completed'' else PStr ''download_started'')
       \<and> after (check_one dq now d s) ''active_browser_id'' = Some PNone
       \<and> after (check_one dq now d s) ''manual_stop'' = Some (PBool False)
       \<and> escaped (check_one dq now d s) = None
       \<and> after (execute_one now d s) ''status''
           = Some (if v = PStr ''active'' then PStr ''completed'' else PStr ''download_started'')
       \<and> escaped (execute_one now d s) = None
       \<and> (\<forall>k. k \<noteq> ''status'' \<longrightarrow> after (execute_one now d s) k = s k)"
proof -
  from status(2) have nc: "v \<noteq> PStr ''completed''" by auto
  note c = oneshot_check_one[OF regular repeat status(1) nc window passed]
  note e = oneshot_execute_one[OF regular repeat status(1) nc window passed]
  show ?thesis using status by (auto simp: c e)
qed

theorem oneshot_window_passed_witness:
  "\<not> truthy (pyget (example_regular False ''active'') ''daily'')
   \<and> example_regular False ''active'' ''repeat'' = Some (PBool False) \<and> \<not> truthy (PBool False)
   \<and> example_regular False ''active'' ''status'' = Some (PStr ''active'')
   \<and> regular_window (example_regular False ''active'')
        = Inr (at_time jan_1_2024 10 0, at_time jan_1_2024 12 0)
   \<and> at_time jan_1_2024 12 0 < at_time jan_1_2024 12 1
   \<and> after (check_one Map.empty (at_time jan_1_2024 12 1)
              \<lparr>clock = at_time jan_1_2024 12 1, jitter = 6 * minute_us\<rparr>
              (example_regular False ''active'')) ''status'' = Some (PStr ''completed'')
   \<and> after (check_one Map.empty (at_time jan_1_2024 12 1)
              \<lparr>clock = at_time jan_1_2024 12 1, jitter = 6 * minute_us\<rparr>
              (example_regular False ''active'')) ''active_browser_id'' = Some PNone
   \<and> after (check_one Map.empty (at_time jan_1_2024 12 1)
              \<lparr>clock = at_time jan_1_2024 12 1, jitter = 6 * minute_us\<rparr>
              (example_regular False ''active'')) ''manual_stop'' = Some (PBool False)
   \<and> after (execute_one (at_time jan_1_2024 12 1)
              \<lparr>clock = at_time jan_1_2024 12 1, jitter = 6 * minute_us\<rparr>
              (example_regular False ''active'')) ''status'' = Some (PStr ''completed'')"
proof -
  let ?s = "example_regular False ''active''"
  let ?d = "\<lparr>clock = at_time jan_1_2024 12 1, jitter = 6 * minute_us\<rparr>"
  have h1: "\<not> truthy (pyget ?s ''daily'')"
    by (simp add: pyget_def example_regular_lookup)
  have h2: "\<not> truthy (PBool False)" by simp
  have h3: "PStr ''active'' = PStr ''active'' \<or> PStr ''active'' = PStr ''download_started''"
    by simp
  have h4: "at_time jan_1_2024 12 0 < at_time jan_1_2024 12 1"
    by (simp add: at_time_value)
  note th = oneshot_window_passed[OF h1 example_regular_lookup(6) h2 example_regular_lookup(3) h3
              example_regular_window h4, of Map.empty ?d, simplified]
  from h1 example_regular_lookup(6)[of False "''active''"] h2
       example_regular_lookup(3)[of False "''active''"]
       example_regular_window[of False "''active''"] h4 th
  show ?thesis by (intro conjI) blast+
qed

subsection \<open>A download that is gone\<close>

lemma in_window_resume:
  assumes "s ''status'' = Some (PStr ''download_started'')"
    and "\<not> is_download_active dq (pyget s ''active_browser_id'')"
    and "s ''id'' = Some i"
  shows "in_window dq now d s e =
           due_check now d (s(''status'' \<mapsto> PStr ''active'', ''active_browser_id'' \<mapsto> PNone))"
  using assms
  by (simp add: in_window_def item_def log_id_def ensure_active_def)

lemma check_one_in_window:
  assumes status: "s ''status'' = Some (PStr ''download_started'')"
    and window: "(truthy (pyget s ''daily'')
                   \<and> (\<exists>w. daily_window s now = Inr w \<and> start_dt w \<le> now \<and> now \<le> end_dt w))
               \<or> (\<not> truthy (pyget s ''daily'')
                   \<and> (\<exists>st en. regular_window s = Inr (st, en) \<and> st \<le> now \<and> now \<le> en))"
  shows "\<exists>e. after (check_one dq now d s) = fst (in_window dq now d s e)"
  using assms
  by (auto simp: check_one_def item_def after_caught check_body_def check_daily_schedule_def)

text \<open>
  The branch \<^verbatim>\<open>Download crashed/failed automatically\<close> of a pass of
  \<^verbatim>\<open>Scheduler._check_schedules\<close> has no condition on \<^verbatim>\<open>manual_stop\<close>: the key
  is not among the hypotheses below, and the pass returns it as it found it.
\<close>

lemma download_gone_resumes:
  assumes status: "s ''status'' = Some (PStr ''download_started'')"
    and gone: "\<not> is_download_active dq (pyget s ''active_browser_id'')"
    and id: "s ''id'' = Some i"
    and window: "(truthy (pyget s ''daily'')
                   \<and> (\<exists>w. daily_window s now = Inr w \<and> start_dt w \<le> now \<and> now \<le> end_dt w))
               \<or> (\<not> truthy (pyget s ''daily'')
                   \<and> (\<exists>st en. regular_window s = Inr (st, en) \<and> st \<le> now \<and> now \<le> en))"
  shows "after (check_one dq now d s) ''status'' = Some (PStr ''active'')
       \<and> after (check_one dq now d s) ''active_browser_id'' = Some PNone
       \<and> after (check_one dq now d s) ''manual_stop'' = s ''manual_stop''
       \<and> after (check_one dq now d s) ''start_time'' = s ''start_time''
       \<and> after (check_one dq now d s) ''end_time'' = s ''end_time''"
proof -
  from check_one_in_window[OF status window, of dq d]
  obtain e where "after (check_one dq now d s) = fst (in_window dq now d s e)" ..
  then have "after (check_one dq now d s) =
      fst (due_check now d (s(''status'' \<mapsto> PStr ''active'', ''active_browser_id'' \<mapsto> PNone)))"
    by (simp add: in_window_resume[OF status gone id])
  then show ?thesis by (simp add: due_check_frame)
qed


lemma example_stopped_lookup:
  "example_stopped ''status'' = Some (PStr ''download_started'')"
  "example_stopped ''manual_stop'' = Some (PBool True)"
  "example_stopped ''active_browser_id'' = Some (PStr ''sched_1704099600001_1704150000'')"
  "example_stopped ''id'' = Some (PStr ''1704099600001'')"
  "example_stopped ''start_time'' = Some (PClock 23 0)"
  "example_stopped ''end_time'' = Some (PClock 1 0)"
  "example_stopped ''daily'' = Some (PBool True)"
  "example_stopped ''next_check'' = Some PNone"
  "example_stopped ''name'' = Some (PStr ''night'')"
  "example_stopped ''url'' = Some (PStr ''https://example.org/night'')"
  by (simp_all add: example_stopped_def example_daily_lookup)







subsection \<open>The record \<^verbatim>\<open>add_schedule\<close> creates\<close>

lemma new_schedule_dom:
  "dom (new_schedule millis created url start_time end_time repeat daily name resolution framerate format) =
     {''id'', ''url'', ''name'', ''resolution'', ''framerate'', ''format'', ''start_time'',
      ''end_time'', ''repeat'', ''daily'', ''status'', ''next_check'', ''last_check'',
      ''created_at''}"
  by (auto simp: new_schedule_def)

lemma update_next_check_sets:
  "s ''next_check'' \<noteq> None \<Longrightarrow> fst (update_next_check d s) ''next_check'' \<noteq> None"
  by (simp add: update_next_check_def Let_def split: sum.splits prod.splits)

lemma update_next_check_dom:
  assumes "''next_check'' \<in> dom s"
  shows "dom (fst (update_next_check d s)) = dom s"
proof (rule set_eqI)
  fix k
  show "k \<in> dom (fst (update_next_check d s)) \<longleftrightarrow> k \<in> dom s"
  proof (cases "k = ''next_check''")
    case True
    with assms update_next_check_sets[of s d] show ?thesis by (auto simp: dom_def)
  next
    case False
    then show ?thesis by (simp add: dom_def update_next_check_frame)
  qed
qed

lemma add_schedule_result:
  assumes "add_schedule millis created d url start_time end_time repeat daily name resolution
             framerate format st = (Inr s, st')"
  shows "s = fst (update_next_check d
                    (new_schedule millis created url start_time end_time repeat daily name
                       resolution framerate format))"
    and "st' = \<lparr>schedules = schedules st @ [s], written = written st @ [schedules st @ [s]]\<rparr>"
  using assms
  by (auto simp: add_schedule_def save_schedules_def split: prod.splits option.splits)

text \<open>
  C9, amended. The record a successful \<^verbatim>\<open>add_schedule\<close> returns has exactly the
  keys id, url, name, resolution, framerate, format, start_time, end_time, repeat, daily,
  status, next_check, last_check and created_at; it is appended to the list and the list
  is saved; \<^verbatim>\<open>active_browser_id\<close> and \<^verbatim>\<open>manual_stop\<close> are absent, and
  \<^verbatim>\<open>get\<close> reads them as None, which is not true.
\<close>

theorem add_schedule_fields:
  assumes "add_schedule millis created d url start_time end_time repeat daily name resolution
             framerate format st = (Inr s, st')"
  shows "dom s = {''id'', ''url'', ''name'', ''resolution'', ''framerate'', ''format'',
                  ''start_time'', ''end_time'', ''repeat'', ''daily'', ''status'', ''next_check'',
                  ''last_check'', ''created_at''}
       \<and> schedules st' = schedules st @ [s]
       \<and> written st' = written st @ [schedules st @ [s]]
       \<and> pyget s ''active_browser_id'' = PNone
       \<and> \<not> truthy (pyget s ''manual_stop'')"
proof -
  let ?new = "new_schedule millis created url start_time end_time repeat daily name
                resolution framerate format"
  note r = add_schedule_result[OF assms]
  have nc: "''next_check'' \<in> dom ?new" by (simp add: new_schedule_dom)
  have d: "dom s = dom ?new"
    unfolding r(1) by (rule update_next_check_dom[OF nc])
  have "''active_browser_id'' \<notin> dom s" and "''manual_stop'' \<notin> dom s"
    unfolding d new_schedule_dom by simp_all
  then have "pyget s ''active_browser_id'' = PNone" and "\<not> truthy (pyget s ''manual_stop'')"
    by (auto simp: pyget_def dom_def)
  with d r(2) show ?thesis by (simp add: new_schedule_dom)
qed


lemma new_schedule_lookup:
  "new_schedule millis created url start_time end_time repeat daily name resolution framerate format
     ''start_time'' = Some start_time"
  "new_schedule millis created url start_time end_time repeat daily name resolution framerate format
     ''end_time'' = Some end_time"
  "new_schedule millis created url start_time end_time repeat daily name resolution framerate format
     ''daily'' = Some daily"
  "new_schedule millis created url start_time end_time repeat daily name resolution framerate format
     ''id'' = Some (PStr (str_nat millis))"
  by (simp_all add: new_schedule_def)

lemma example_add:
  "add_schedule 1704099600000 (at_time jan_1_2024 9 0)
     \<lparr>clock = at_time jan_1_2024 9 0, jitter = 6 * minute_us\<rparr>
     (PStr ''https://example.org/live'')
     (PStamp (at_time jan_1_2024 10 0)) (PStamp (at_time jan_1_2024 12 0))
     (PBool False) (PBool False) PNone (PStr ''1080p'') (PStr ''any'') (PStr ''mp4'')
     \<lparr>schedules = [], written = []\<rparr>
   = (Inr example_added, \<lparr>schedules = [example_added], written = [[example_added]]\<rparr>)"
proof -
  let ?new = "new_schedule 1704099600000 (at_time jan_1_2024 9 0) (PStr ''https://example.org/live'')
        (PStamp (at_time jan_1_2024 10 0)) (PStamp (at_time jan_1_2024 12 0))
        (PBool False) (PBool False) PNone (PStr ''1080p'') (PStr ''any'') (PStr ''mp4'')"
  have w: "regular_window ?new = Inr (at_time jan_1_2024 10 0, at_time jan_1_2024 12 0)"
    by (simp add: regular_window_def item_def and_then_def new_schedule_lookup)
  have lt: "at_time jan_1_2024 9 0 < at_time jan_1_2024 10 0"
    by (simp add: at_time_value)
  have "update_next_check \<lparr>clock = at_time jan_1_2024 9 0, jitter = 6 * minute_us\<rparr> ?new
          = (example_added, None)"
    using lt
    by (simp add: update_next_check_def pyget_def new_schedule_lookup w log_id_def
          example_added_def)
  then show ?thesis
    by (simp add: add_schedule_def save_schedules_def)
qed

text \<open>
  C9, as stated, fails: the record \<^verbatim>\<open>add_schedule\<close> returns and saves has the keys
  \<^verbatim>\<open>start_time\<close> and \<^verbatim>\<open>end_time\<close>, which the claim's list lacks, and has
  neither \<^verbatim>\<open>active_browser_id\<close> nor \<^verbatim>\<open>manual_stop\<close>.
\<close>

theorem new_record_other_keys:
  "add_schedule 1704099600000 (at_time jan_1_2024 9 0)
     \<lparr>clock = at_time jan_1_2024 9 0, jitter = 6 * minute_us\<rparr>
     (PStr ''https://example.org/live'')
     (PStamp (at_time jan_1_2024 10 0)) (PStamp (at_time jan_1_2024 12 0))
     (PBool False) (PBool False) PNone (PStr ''1080p'') (PStr ''any'') (PStr ''mp4'')
     \<lparr>schedules = [], written = []\<rparr>
   = (Inr example_added, \<lparr>schedules = [example_added], written = [[example_added]]\<rparr>)
   \<and> ''start_time'' \<in> dom example_added
   \<and> ''end_time'' \<in> dom example_added
   \<and> ''active_browser_id'' \<notin> dom example_added
   \<and> ''manual_stop'' \<notin> dom example_added
   \<and> dom example_added
       \<noteq> {''id'', ''url'', ''name'', ''resolution'', ''framerate'', ''format'', ''daily'',
           ''repeat'', ''status'', ''next_check'', ''last_check'', ''active_browser_id'',
           ''manual_stop'', ''created_at''}"
proof -
  have d: "dom example_added =
     {''id'', ''url'', ''name'', ''resolution'', ''framerate'', ''format'', ''start_time'',
      ''end_time'', ''repeat'', ''daily'', ''status'', ''next_check'', ''last_check'',
      ''created_at''}"
    by (auto simp: example_added_def new_schedule_dom)
  have 1: "''start_time'' \<in> dom example_added" and 2: "''end_time'' \<in> dom example_added"
    and 3: "''active_browser_id'' \<notin> dom example_added"
    and 4: "''manual_stop'' \<notin> dom example_added"
    unfolding d by simp_all
  have "''start_time'' \<notin> {''id'', ''url'', ''name'', ''resolution'', ''framerate'', ''format'',
           ''daily'', ''repeat'', ''status'', ''next_check'', ''last_check'',
           ''active_browser_id'', ''manual_stop'', ''created_at''}"
    by simp
  with 1 have 5: "dom example_added
       \<noteq> {''id'', ''url'', ''name'', ''resolution'', ''framerate'', ''format'', ''daily'',
           ''repeat'', ''status'', ''next_check'', ''last_check'', ''active_browser_id'',
           ''manual_stop'', ''created_at''}"
    by metis
  from example_add 1 2 3 4 5 show ?thesis by (intro conjI)
qed

theorem add_schedule_fields_witness:
  "add_schedule 1704099600000 (at_time jan_1_2024 9 0)
     \<lparr>clock = at_time jan_1_2024 9 0, jitter = 6 * minute_us\<rparr>
     (PStr ''https://example.org/live'')
     (PStamp (at_time jan_1_2024 10 0)) (PStamp (at_time jan_1_2024 12 0))
     (PBool False) (PBool False) PNone (PStr ''1080p'') (PStr ''any'') (PStr ''mp4'')
     \<lparr>schedules = [], written = []\<rparr>
   = (Inr example_added, \<lparr>schedules = [example_added], written = [[example_added]]\<rparr>)
   \<and> dom example_added =
       {''id'', ''url'', ''name'', ''resolution'', ''framerate'', ''format'', ''start_time'',
        ''end_time'', ''repeat'', ''daily'', ''status'', ''next_check'', ''last_check'',
        ''created_at''}
   \<and> pyget example_added ''active_browser_id'' = PNone
   \<and> \<not> truthy (pyget example_added ''manual_stop'')"
proof -
  note th = add_schedule_fields[OF example_add]
  note keys = th[THEN conjunct1]
  note absent = th[THEN conjunct2, THEN conjunct2, THEN conjunct2]
  from example_add keys absent[THEN conjunct1] absent[THEN conjunct2]
  show ?thesis by (intro conjI)
qed

subsection \<open>A tick over the whole list\<close>

lemma update_next_check_id:
  "update_next_check d s = (s', err) \<Longrightarrow> s' ''id'' = s ''id''"
  using update_next_check_frame[of "''id''" d s] by simp

lemma ensure_active_frame:
  "k \<noteq> ''status'' \<Longrightarrow> ensure_active s e k = s k"
  by (simp add: ensure_active_def Let_def split: sum.splits)

lemma reschedule_next_week_id: "fst (reschedule_next_week d s) ''id'' = s ''id''"
proof (cases "regular_window s")
  case (Inl e)
  then show ?thesis by (simp add: reschedule_next_week_def)
next
  case (Inr w)
  obtain st en where w: "regular_window s = Inr (st, en)"
    using Inr by (cases w) simp
  show ?thesis
  proof (cases "representable (st + days 7) \<and> representable (en + days 7)")
    case True
    then show ?thesis by (simp add: reschedule_next_week_fst[OF w] update_next_check_frame)
  next
    case False
    then show ?thesis by (simp add: reschedule_next_week_overflow[OF w])
  qed
qed

lemma reschedule_weekly_id: "fst (reschedule_weekly d s) ''id'' = s ''id''"
proof (cases "regular_window s")
  case (Inl e)
  then show ?thesis by (simp add: reschedule_weekly_def)
next
  case (Inr w)
  obtain st en where w: "regular_window s = Inr (st, en)"
    using Inr by (cases w) simp
  show ?thesis
  proof (cases "representable (st + days 7) \<and> representable (en + days 7)")
    case True
    then show ?thesis by (simp add: reschedule_weekly_fst[OF w] executor_update_frame)
  next
    case False
    then show ?thesis by (simp add: reschedule_weekly_overflow[OF w])
  qed
qed

lemma in_window_id: "fst (in_window dq now d s e) ''id'' = s ''id''"
  by (simp add: in_window_def due_check_frame ensure_active_frame split: sum.splits option.splits)

lemma before_window_id: "fst (before_window now d s) ''id'' = s ''id''"
  by (auto simp: before_window_def Let_def split: sum.splits prod.splits option.splits
        dest!: update_next_check_id)

lemma check_daily_schedule_id: "fst (check_daily_schedule dq now d s) ''id'' = s ''id''"
  by (auto simp: check_daily_schedule_def in_window_id before_window_id
        split: sum.splits prod.splits dest!: update_next_check_id)

lemma check_body_id: "fst (check_body dq now d s) ''id'' = s ''id''"
  using reschedule_next_week_id[of d s]
  by (auto simp: check_body_def check_daily_schedule_id in_window_id before_window_id Let_def
        split: sum.splits prod.splits)


lemma then_false_fst: "fst (then_false p) = fst p"
  by (simp add: then_false_def split: option.splits)

lemma calc_in_window_id: "fst (calc_in_window s now) ''id'' = s ''id''"
  by (simp add: calc_in_window_def Let_def split: sum.splits)

lemma calc_before_window_id:
  assumes "\<And>s1. fst (calculate s1) ''id'' = s1 ''id''"
  shows "fst (calc_before_window calculate s start) ''id'' = s ''id''"
  using assms
  by (simp add: calc_before_window_def Let_def then_false_fst split: sum.splits)

lemma daily_check_schedule_id: "fst (daily_check_schedule s now r) ''id'' = s ''id''"
  by (simp add: daily_check_schedule_def calc_in_window_id calc_before_window_id
        daily_calc_frame then_false_fst split: sum.splits)

lemma regular_check_schedule_id: "fst (regular_check_schedule s now r) ''id'' = s ''id''"
  by (simp add: regular_check_schedule_def calc_in_window_id calc_before_window_id
        regular_calc_frame split: sum.splits prod.splits)

lemma executor_dispatch_id: "fst (executor_dispatch d p) ''id'' = fst p ''id''"
  by (simp add: executor_dispatch_def executor_perform_check_frame split: sum.splits)

lemma execute_body_id: "fst (execute_body now d s) ''id'' = s ''id''"
  using reschedule_weekly_id[of d s]
  by (auto simp: execute_body_def executor_dispatch_id daily_check_schedule_id
        regular_check_schedule_id split: sum.splits prod.splits)

lemma caught_escaped: "fst p ''id'' \<noteq> None \<Longrightarrow> escaped (caught p) = None"
  by (cases p) (auto simp: caught_def log_id_def split: option.splits)

lemma check_one_no_escape:
  assumes "''id'' \<in> dom s" and "''status'' \<in> dom s"
  shows "escaped (check_one dq now d s) = None"
  using assms
  by (auto simp: check_one_def item_def caught_escaped check_body_id)

lemma execute_one_no_escape:
  assumes "''id'' \<in> dom s" and "''status'' \<in> dom s"
  shows "escaped (execute_one now d s) = None"
  using assms
  by (auto simp: execute_one_def item_def caught_escaped execute_body_id)

lemma check_one_id: "after (check_one dq now d s) ''id'' = s ''id''"
  by (simp add: check_one_def after_caught check_body_id split: sum.splits)

lemma execute_one_id: "after (execute_one now d s) ''id'' = s ''id''"
  by (simp add: execute_one_def after_caught execute_body_id split: sum.splits)

lemma for_each_all:
  "\<forall>s\<in>set ss. \<forall>j. escaped (body j s) = None \<Longrightarrow>
   for_each body i ss = map (\<lambda>(j, s). body j s) (enumerate i ss)"
  by (induction ss arbitrary: i) simp_all

lemma run_tick_all:
  assumes "\<forall>s\<in>set ss. \<forall>j. escaped (body j s) = None"
  shows "run_tick body ss =
           \<lparr>schedules_after = map (\<lambda>(j, s). after (body j s)) (enumerate 0 ss),
            passes = map (\<lambda>(j, s). body j s) (enumerate 0 ss),
            saved = [map (\<lambda>(j, s). after (body j s)) (enumerate 0 ss)],
            raised = None\<rparr>"
proof -
  let ?outs = "map (\<lambda>(j, s). body j s) (enumerate 0 ss)"
  have f: "for_each body 0 ss = ?outs"
    by (rule for_each_all[OF assms])
  have a: "map after ?outs = map (\<lambda>(j, s). after (body j s)) (enumerate 0 ss)"
    by (simp add: case_prod_unfold)
  have l: "escaped (last ?outs) = None" if ne: "ss \<noteq> []"
  proof -
    from ne have "?outs \<noteq> []" by (cases ss) simp_all
    then have "last ?outs \<in> set ?outs" by (rule last_in_set)
    then obtain j s where "s \<in> set ss" and "last ?outs = body j s"
      by (auto simp: enumerate_eq_zip dest: set_zip_rightD)
    with assms show ?thesis by simp
  qed
  have n: "length ?outs = length ss" by simp
  show ?thesis
    unfolding run_tick_def f Let_def a n
    using l by (cases "ss = []") simp_all
qed


lemma malformed_check_one:
  assumes "s ''id'' = Some i" and "s ''status'' = Some v"
    and "(truthy (pyget s ''daily'') \<and> daily_window s now = Inl e)
       \<or> (\<not> truthy (pyget s ''daily'') \<and> v \<noteq> PStr ''completed'' \<and> regular_window s = Inl e)"
  shows "check_one dq now d s = \<lparr>after = s, spawned = False, logged = Some e, escaped = None\<rparr>"
  using assms
  by (auto simp: check_one_def item_def check_body_def check_daily_schedule_def caught_def
        log_id_def)

lemma malformed_execute_one:
  assumes "s ''id'' = Some i" and "s ''status'' = Some v"
    and "(truthy (pyget s ''daily'') \<and> daily_window s now = Inl e)
       \<or> (\<not> truthy (pyget s ''daily'') \<and> v \<noteq> PStr ''completed'' \<and> regular_window s = Inl e)"
  shows "execute_one now d s = \<lparr>after = s, spawned = False, logged = Some e, escaped = None\<rparr>"
  using assms
  by (auto simp: execute_one_def item_def execute_body_def daily_check_schedule_def
        executor_dispatch_def caught_def log_id_def)

lemma enumerate_ids:
  assumes "\<And>j s. after (body j s) ''id'' = s ''id''"
  shows "map (\<lambda>s. s ''id'') (map (\<lambda>(j, s). after (body j s)) (enumerate i ss))
           = map (\<lambda>s. s ''id'') ss"
  by (induction ss arbitrary: i) (simp_all add: assms)

text \<open>
  C8, amended. When every record of the list carries an id and a status, a tick of
  either loop raises nothing: every record gets its pass, in list order, whatever the
  passes of the others did; an exception inside a pass is caught there; the list after
  the tick holds the same ids at the same places; and the list is saved once, after the
  loop, as it then is. A record whose window cannot be read (a missing or unparseable
  \<^verbatim>\<open>start_time\<close> or \<^verbatim>\<open>end_time\<close>) is left as it was, with the error logged.
\<close>

theorem tick_survives_errors:
  assumes wf: "\<forall>s\<in>set ss. ''id'' \<in> dom s \<and> ''status'' \<in> dom s"
  shows "raised (check_schedules dq now env ss) = None
       \<and> passes (check_schedules dq now env ss)
           = map (\<lambda>(i, s). check_one dq now (env i) s) (enumerate 0 ss)
       \<and> (\<forall>p\<in>set (passes (check_schedules dq now env ss)). escaped p = None)
       \<and> schedules_after (check_schedules dq now env ss)
           = map after (passes (check_schedules dq now env ss))
       \<and> map (\<lambda>s. s ''id'') (schedules_after (check_schedules dq now env ss))
           = map (\<lambda>s. s ''id'') ss
       \<and> saved (check_schedules dq now env ss) = [schedules_after (check_schedules dq now env ss)]
       \<and> raised (execute_schedules now env ss) = None
       \<and> passes (execute_schedules now env ss)
           = map (\<lambda>(i, s). execute_one now (env i) s) (enumerate 0 ss)
       \<and> (\<forall>p\<in>set (passes (execute_schedules now env ss)). escaped p = None)
       \<and> schedules_after (execute_schedules now env ss)
           = map after (passes (execute_schedules now env ss))
       \<and> map (\<lambda>s. s ''id'') (schedules_after (execute_schedules now env ss))
           = map (\<lambda>s. s ''id'') ss
       \<and> saved (execute_schedules now env ss) = [schedules_after (execute_schedules now env ss)]
       \<and> (\<forall>s\<in>set ss. \<forall>e d.
             (truthy (pyget s ''daily'') \<and> daily_window s now = Inl e)
             \<or> (\<not> truthy (pyget s ''daily'') \<and> s ''status'' \<noteq> Some (PStr ''completed'')
                 \<and> regular_window s = Inl e)
             \<longrightarrow> check_one dq now d s
                   = \<lparr>after = s, spawned = False, logged = Some e, escaped = None\<rparr>
               \<and> execute_one now d s
                   = \<lparr>after = s, spawned = False, logged = Some e, escaped = None\<rparr>)"
proof -
  have c: "\<forall>s\<in>set ss. \<forall>j. escaped (check_one dq now (env j) s) = None"
    using wf by (simp add: check_one_no_escape)
  have e: "\<forall>s\<in>set ss. \<forall>j. escaped (execute_one now (env j) s) = None"
    using wf by (simp add: execute_one_no_escape)
  note rc = run_tick_all[OF c]
  note re = run_tick_all[OF e]
  have ac: "map after (map (\<lambda>(i, s). check_one dq now (env i) s) (enumerate 0 ss))
              = map (\<lambda>(i, s). after (check_one dq now (env i) s)) (enumerate 0 ss)"
    by (simp add: case_prod_unfold)
  have ae: "map after (map (\<lambda>(i, s). execute_one now (env i) s) (enumerate 0 ss))
              = map (\<lambda>(i, s). after (execute_one now (env i) s)) (enumerate 0 ss)"
    by (simp add: case_prod_unfold)
  have pc: "\<forall>p\<in>set (map (\<lambda>(i, s). check_one dq now (env i) s) (enumerate 0 ss)). escaped p = None"
    using c by (auto simp: enumerate_eq_zip dest: set_zip_rightD)
  have pe: "\<forall>p\<in>set (map (\<lambda>(i, s). execute_one now (env i) s) (enumerate 0 ss)). escaped p = None"
    using e by (auto simp: enumerate_eq_zip dest: set_zip_rightD)
  have ic: "map (\<lambda>s. s ''id'')
              (map (\<lambda>(i, s). after (check_one dq now (env i) s)) (enumerate 0 ss))
            = map (\<lambda>s. s ''id'') ss"
    by (rule enumerate_ids) (rule check_one_id)
  have ie: "map (\<lambda>s. s ''id'')
              (map (\<lambda>(i, s). after (execute_one now (env i) s)) (enumerate 0 ss))
            = map (\<lambda>s. s ''id'') ss"
    by (rule enumerate_ids) (rule execute_one_id)
  have m: "\<forall>s\<in>set ss. \<forall>e d.
             (truthy (pyget s ''daily'') \<and> daily_window s now = Inl e)
             \<or> (\<not> truthy (pyget s ''daily'') \<and> s ''status'' \<noteq> Some (PStr ''completed'')
                 \<and> regular_window s = Inl e)
             \<longrightarrow> check_one dq now d s
                   = \<lparr>after = s, spawned = False, logged = Some e, escaped = None\<rparr>
               \<and> execute_one now d s
                   = \<lparr>after = s, spawned = False, logged = Some e, escaped = None\<rparr>"
  proof (intro ballI allI impI)
    fix s e d
    assume s: "s \<in> set ss"
      and bad: "(truthy (pyget s ''daily'') \<and> daily_window s now = Inl e)
             \<or> (\<not> truthy (pyget s ''daily'') \<and> s ''status'' \<noteq> Some (PStr ''completed'')
                 \<and> regular_window s = Inl e)"
    from wf s obtain i v where i: "s ''id'' = Some i" and v: "s ''status'' = Some v"
      by (auto simp: dom_def)
    from bad v have bad': "(truthy (pyget s ''daily'') \<and> daily_window s now = Inl e)
       \<or> (\<not> truthy (pyget s ''daily'') \<and> v \<noteq> PStr ''completed'' \<and> regular_window s = Inl e)"
      by auto
    show "check_one dq now d s
                   = \<lparr>after = s, spawned = False, logged = Some e, escaped = None\<rparr>
               \<and> execute_one now d s
                   = \<lparr>after = s, spawned = False, logged = Some e, escaped = None\<rparr>"
      using malformed_check_one[OF i v bad'] malformed_execute_one[OF i v bad'] by simp
  qed
  show ?thesis
    unfolding check_schedules_def execute_schedules_def rc re
    using pc pe ic ie m by (simp add: case_prod_unfold)
qed


lemma example_pending_lookup:
  "example_pending i ''status'' = Some (PStr ''pending'')"
  "example_pending i ''daily'' = None"
  "example_pending i ''start_time'' = None"
  by (simp_all add: example_pending_def)

theorem tick_survives_errors_witness:
  "''id'' \<in> dom (example_pending ''1'') \<and> ''status'' \<in> dom (example_pending ''1'')
   \<and> ''id'' \<in> dom (example_regular False ''active'')
   \<and> ''status'' \<in> dom (example_regular False ''active'')
   \<and> regular_window (example_pending ''1'') = Inl KeyError
   \<and> raised (check_schedules Map.empty (at_time jan_1_2024 12 1)
               (\<lambda>i. \<lparr>clock = at_time jan_1_2024 12 1, jitter = 6 * minute_us\<rparr>)
               [example_pending ''1'', example_regular False ''active'']) = None
   \<and> map logged (passes (check_schedules Map.empty (at_time jan_1_2024 12 1)
               (\<lambda>i. \<lparr>clock = at_time jan_1_2024 12 1, jitter = 6 * minute_us\<rparr>)
               [example_pending ''1'', example_regular False ''active''])) = [Some KeyError, None]
   \<and> saved (check_schedules Map.empty (at_time jan_1_2024 12 1)
               (\<lambda>i. \<lparr>clock = at_time jan_1_2024 12 1, jitter = 6 * minute_us\<rparr>)
               [example_pending ''1'', example_regular False ''active''])
       = [[example_pending ''1'',
           (example_regular False ''active'')
             (''status'' \<mapsto> PStr ''completed'', ''active_browser_id'' \<mapsto> PNone,
              ''manual_stop'' \<mapsto> PBool False)]]
   \<and> raised (execute_schedules (at_time jan_1_2024 12 1)
               (\<lambda>i. \<lparr>clock = at_time jan_1_2024 12 1, jitter = 6 * minute_us\<rparr>)
               [example_pending ''1'', example_regular False ''active'']) = None
   \<and> map logged (passes (execute_schedules (at_time jan_1_2024 12 1)
               (\<lambda>i. \<lparr>clock = at_time jan_1_2024 12 1, jitter = 6 * minute_us\<rparr>)
               [example_pending ''1'', example_regular False ''active''])) = [Some KeyError, None]
   \<and> saved (execute_schedules (at_time jan_1_2024 12 1)
               (\<lambda>i. \<lparr>clock = at_time jan_1_2024 12 1, jitter = 6 * minute_us\<rparr>)
               [example_pending ''1'', example_regular False ''active''])
       = [[example_pending ''1'',
           (example_regular False ''active'')(''status'' \<mapsto> PStr ''completed'')]]"
proof -
  let ?a = "example_pending ''1''"
  let ?b = "example_regular False ''active''"
  let ?now = "at_time jan_1_2024 12 1"
  let ?env = "\<lambda>i::nat. \<lparr>clock = at_time jan_1_2024 12 1, jitter = 6 * minute_us\<rparr>"
  let ?d = "\<lparr>clock = at_time jan_1_2024 12 1, jitter = 6 * minute_us\<rparr>"
  have d1: "''id'' \<in> dom ?a" and d2: "''status'' \<in> dom ?a"
    by (simp_all add: dom_def example_pending_id example_pending_lookup)
  have d3: "''id'' \<in> dom ?b" and d4: "''status'' \<in> dom ?b"
    by (simp_all add: dom_def example_regular_lookup)
  have wf: "\<forall>s\<in>set [?a, ?b]. ''id'' \<in> dom s \<and> ''status'' \<in> dom s"
    using d1 d2 d3 d4 by simp
  have wa: "regular_window ?a = Inl KeyError"
    by (simp add: regular_window_def item_def and_then_def example_pending_lookup)
  have na: "\<not> truthy (pyget ?a ''daily'')"
    by (simp add: pyget_def example_pending_lookup)
  have ca: "check_one Map.empty ?now ?d ?a
              = \<lparr>after = ?a, spawned = False, logged = Some KeyError, escaped = None\<rparr>"
    using na wa
    by (intro malformed_check_one[OF example_pending_id example_pending_lookup(1)]) simp
  have ea: "execute_one ?now ?d ?a
              = \<lparr>after = ?a, spawned = False, logged = Some KeyError, escaped = None\<rparr>"
    using na wa
    by (intro malformed_execute_one[OF example_pending_id example_pending_lookup(1)]) simp
  have nb: "\<not> truthy (pyget ?b ''daily'')"
    by (simp add: pyget_def example_regular_lookup)
  have h2: "\<not> truthy (PBool False)" and h3: "PStr ''active'' \<noteq> PStr ''completed''"
    by simp_all
  have h4: "at_time jan_1_2024 12 0 < ?now"
    by (simp add: at_time_value)
  note cb = oneshot_check_one[OF nb example_regular_lookup(6) h2 example_regular_lookup(3) h3
              example_regular_window h4, of Map.empty ?d, simplified]
  note eb = oneshot_execute_one[OF nb example_regular_lookup(6) h2 example_regular_lookup(3) h3
              example_regular_window h4, of ?d, simplified]
  note th = tick_survives_errors[OF wf, of Map.empty ?now ?env]
  have pc: "passes (check_schedules Map.empty ?now ?env [?a, ?b])
              = [check_one Map.empty ?now ?d ?a, check_one Map.empty ?now ?d ?b]"
    using th[THEN conjunct2, THEN conjunct1] by simp
  note t6 = th[THEN conjunct2, THEN conjunct2, THEN conjunct2, THEN conjunct2, THEN conjunct2,
               THEN conjunct2]
  have pe: "passes (execute_schedules ?now ?env [?a, ?b])
              = [execute_one ?now ?d ?a, execute_one ?now ?d ?b]"
    using t6[THEN conjunct2, THEN conjunct1] by simp
  have 1: "raised (check_schedules Map.empty ?now ?env [?a, ?b]) = None"
    using th by (rule conjunct1)
  have 2: "map logged (passes (check_schedules Map.empty ?now ?env [?a, ?b]))
             = [Some KeyError, None]"
    by (simp add: pc ca cb)
  have sc: "schedules_after (check_schedules Map.empty ?now ?env [?a, ?b])
              = map after (passes (check_schedules Map.empty ?now ?env [?a, ?b]))"
    using th[THEN conjunct2, THEN conjunct2, THEN conjunct2, THEN conjunct1] .
  have 3: "saved (check_schedules Map.empty ?now ?env [?a, ?b])
       = [[?a, ?b(''status'' \<mapsto> PStr ''completed'', ''active_browser_id'' \<mapsto> PNone,
              ''manual_stop'' \<mapsto> PBool False)]]"
    unfolding th[THEN conjunct2, THEN conjunct2, THEN conjunct2, THEN conjunct2, THEN conjunct2,
                 THEN conjunct1] sc pc
    by (simp add: ca cb)
  have 4: "raised (execute_schedules ?now ?env [?a, ?b]) = None"
    using t6 by (rule conjunct1)
  have 5: "map logged (passes (execute_schedules ?now ?env [?a, ?b])) = [Some KeyError, None]"
    by (simp add: pe ea eb)
  have se: "schedules_after (execute_schedules ?now ?env [?a, ?b])
              = map after (passes (execute_schedules ?now ?env [?a, ?b]))"
    using t6[THEN conjunct2, THEN conjunct2, THEN conjunct2, THEN conjunct1] .
  have 6: "saved (execute_schedules ?now ?env [?a, ?b])
       = [[?a, ?b(''status'' \<mapsto> PStr ''completed'')]]"
    unfolding t6[THEN conjunct2, THEN conjunct2, THEN conjunct2, THEN conjunct2, THEN conjunct2,
                 THEN conjunct1] se pe
    by (simp add: ea eb)
  from d1 d2 d3 d4 wa 1 2 3 4 5 6 show ?thesis by (intro conjI)
qed

lemma example_no_status_lookup:
  "example_no_status ''status'' = None"
  "example_no_status ''id'' = Some (PStr ''7'')"
  by (simp_all add: example_no_status_def)

lemma example_no_id_lookup:
  "example_no_id ''status'' = Some (PStr ''pending'')"
  "example_no_id ''id'' = None"
  "example_no_id ''daily'' = None"
  "example_no_id ''start_time'' = None"
  by (simp_all add: example_no_id_def)

lemma no_status_check_one:
  "check_one dq now d example_no_status
     = \<lparr>after = example_no_status, spawned = False, logged = None, escaped = Some KeyError\<rparr>"
  by (simp add: check_one_def item_def example_no_status_lookup)

lemma no_status_execute_one:
  "execute_one now d example_no_status
     = \<lparr>after = example_no_status, spawned = False, logged = None, escaped = Some KeyError\<rparr>"
  by (simp add: execute_one_def item_def example_no_status_lookup)

lemma no_id_check_one:
  "check_one dq now d example_no_id
     = \<lparr>after = example_no_id, spawned = False, logged = None, escaped = Some KeyError\<rparr>"
  by (simp add: check_one_def check_body_def regular_window_def and_then_def item_def pyget_def
        caught_def log_id_def example_no_id_lookup)

lemma no_id_execute_one:
  "execute_one now d example_no_id
     = \<lparr>after = example_no_id, spawned = False, logged = None, escaped = Some KeyError\<rparr>"
  by (simp add: execute_one_def execute_body_def regular_window_def and_then_def item_def
        pyget_def caught_def log_id_def example_no_id_lookup)

lemma run_tick_first_escapes:
  assumes "body 0 s = \<lparr>after = s, spawned = False, logged = None, escaped = Some e\<rparr>"
  shows "run_tick body (s # ss)
           = \<lparr>schedules_after = s # ss,
              passes = [\<lparr>after = s, spawned = False, logged = None, escaped = Some e\<rparr>],
              saved = [], raised = Some e\<rparr>"
  by (simp add: run_tick_def assms Let_def)

text \<open>
  C8, as stated, fails for a list with a record that lacks \<^verbatim>\<open>status\<close> or
  \<^verbatim>\<open>id\<close>. The loop reads \<^verbatim>\<open>schedule['status']\<close> before the \<^verbatim>\<open>try\<close>, and the
  handler's log line reads \<^verbatim>\<open>schedule['id']\<close>: the KeyError leaves the tick, the
  record behind it gets no pass (its own pass would have completed it) and nothing is
  saved.
\<close>

theorem malformed_record_aborts_tick:
  "check_schedules Map.empty (at_time jan_1_2024 12 1)
      (\<lambda>i. \<lparr>clock = at_time jan_1_2024 12 1, jitter = 6 * minute_us\<rparr>)
      [example_no_status, example_regular False ''active'']
    = \<lparr>schedules_after = [example_no_status, example_regular False ''active''],
       passes = [\<lparr>after = example_no_status, spawned = False, logged = None,
                  escaped = Some KeyError\<rparr>],
       saved = [], raised = Some KeyError\<rparr>
   \<and> execute_schedules (at_time jan_1_2024 12 1)
      (\<lambda>i. \<lparr>clock = at_time jan_1_2024 12 1, jitter = 6 * minute_us\<rparr>)
      [example_no_status, example_regular False ''active'']
    = \<lparr>schedules_after = [example_no_status, example_regular False ''active''],
       passes = [\<lparr>after = example_no_status, spawned = False, logged = None,
                  escaped = Some KeyError\<rparr>],
       saved = [], raised = Some KeyError\<rparr>
   \<and> check_schedules Map.empty (at_time jan_1_2024 12 1)
      (\<lambda>i. \<lparr>clock = at_time jan_1_2024 12 1, jitter = 6 * minute_us\<rparr>)
      [example_no_id, example_regular False ''active'']
    = \<lparr>schedules_after = [example_no_id, example_regular False ''active''],
       passes = [\<lparr>after = example_no_id, spawned = False, logged = None,
                  escaped = Some KeyError\<rparr>],
       saved = [], raised = Some KeyError\<rparr>
   \<and> execute_schedules (at_time jan_1_2024 12 1)
      (\<lambda>i. \<lparr>clock = at_time jan_1_2024 12 1, jitter = 6 * minute_us\<rparr>)
      [example_no_id, example_regular False ''active'']
    = \<lparr>schedules_after = [example_no_id, example_regular False ''active''],
       passes = [\<lparr>after = example_no_id, spawned = False, logged = None,
                  escaped = Some KeyError\<rparr>],
       saved = [], raised = Some KeyError\<rparr>
   \<and> after (check_one Map.empty (at_time jan_1_2024 12 1)
              \<lparr>clock = at_time jan_1_2024 12 1, jitter = 6 * minute_us\<rparr>
              (example_regular False ''active'')) ''status'' = Some (PStr ''completed'')
   \<and> after (execute_one (at_time jan_1_2024 12 1)
              \<lparr>clock = at_time jan_1_2024 12 1, jitter = 6 * minute_us\<rparr>
              (example_regular False ''active'')) ''status'' = Some (PStr ''completed'')
   \<and> example_regular False ''active'' ''status'' = Some (PStr ''active'')"
proof -
  let ?b = "example_regular False ''active''"
  let ?now = "at_time jan_1_2024 12 1"
  let ?d = "\<lparr>clock = at_time jan_1_2024 12 1, jitter = 6 * minute_us\<rparr>"
  have nb: "\<not> truthy (pyget ?b ''daily'')"
    by (simp add: pyget_def example_regular_lookup)
  have h2: "\<not> truthy (PBool False)" and h3: "PStr ''active'' \<noteq> PStr ''completed''"
    by simp_all
  have h4: "at_time jan_1_2024 12 0 < ?now"
    by (simp add: at_time_value)
  note cb = oneshot_check_one[OF nb example_regular_lookup(6) h2 example_regular_lookup(3) h3
              example_regular_window h4, of Map.empty ?d, simplified]
  note eb = oneshot_execute_one[OF nb example_regular_lookup(6) h2 example_regular_lookup(3) h3
              example_regular_window h4, of ?d, simplified]
  have 5: "after (check_one Map.empty ?now ?d ?b) ''status'' = Some (PStr ''completed'')"
    by (simp add: cb)
  have 6: "after (execute_one ?now ?d ?b) ''status'' = Some (PStr ''completed'')"
    by (simp add: eb)
  have 1: "check_schedules Map.empty ?now (\<lambda>i. ?d) [example_no_status, ?b]
    = \<lparr>schedules_after = [example_no_status, ?b],
       passes = [\<lparr>after = example_no_status, spawned = False, logged = None,
                  escaped = Some KeyError\<rparr>],
       saved = [], raised = Some KeyError\<rparr>"
    unfolding check_schedules_def by (rule run_tick_first_escapes) (rule no_status_check_one)
  have 2: "execute_schedules ?now (\<lambda>i. ?d) [example_no_status, ?b]
    = \<lparr>schedules_after = [example_no_status, ?b],
       passes = [\<lparr>after = example_no_status, spawned = False, logged = None,
                  escaped = Some KeyError\<rparr>],
       saved = [], raised = Some KeyError\<rparr>"
    unfolding execute_schedules_def by (rule run_tick_first_escapes) (rule no_status_execute_one)
  have 3: "check_schedules Map.empty ?now (\<lambda>i. ?d) [example_no_id, ?b]
    = \<lparr>schedules_after = [example_no_id, ?b],
       passes = [\<lparr>after = example_no_id, spawned = False, logged = None,
                  escaped = Some KeyError\<rparr>],
       saved = [], raised = Some KeyError\<rparr>"
    unfolding check_schedules_def by (rule run_tick_first_escapes) (rule no_id_check_one)
  have 4: "execute_schedules ?now (\<lambda>i. ?d) [example_no_id, ?b]
    = \<lparr>schedules_after = [example_no_id, ?b],
       passes = [\<lparr>after = example_no_id, spawned = False, logged = None,
                  escaped = Some KeyError\<rparr>],
       saved = [], raised = Some KeyError\<rparr>"
    unfolding execute_schedules_def by (rule run_tick_first_escapes) (rule no_id_execute_one)
  from 1 2 3 4 5 6 example_regular_lookup(3)[of False "''active''"]
  show ?thesis by (intro conjI)
qed

subsection \<open>One running browser\<close>

lemma running_delete: "running (AList.delete k ab) = removeAll k (running ab)"
  by (induction ab) (auto simp: running_def AList.delete_eq)

lemma running_placeholder:
  "set (running (AList.update k (Queued_dict s) ab)) \<subseteq> set (running ab)
   \<and> length (running (AList.update k (Queued_dict s) ab)) \<le> length (running ab)"
  by (induction ab) (auto simp: running_def)

lemma running_install:
  "running ab = [] \<Longrightarrow> running (AList.update k Stream_detector ab) = [k]"
  by (induction ab) (auto simp: running_def split: if_splits)

lemma running_close:
  "running (snd (close_browser k ab)) = removeAll k (running ab)"
proof (cases "map_of ab k")
  case None
  then have "k \<notin> fst ` set ab" by (simp add: map_of_eq_None_iff)
  then have "k \<notin> set (running ab)" by (auto simp: running_def)
  with None show ?thesis by (simp add: close_browser_def)
next
  case (Some b)
  then show ?thesis by (cases b) (simp_all add: close_browser_def running_delete)
qed

lemma running_mark:
  "set (running (mark_launching k ab)) \<subseteq> set (running ab)
   \<and> length (running (mark_launching k ab)) \<le> length (running ab)"
  using running_placeholder[of k "''launching''" ab]
  by (simp add: mark_launching_def split: option.splits browser.splits)


lemma removeAll_at_most_one:
  assumes "single_flight c"
  shows "length (removeAll k (running (active_browsers c))) \<le> 1"
proof -
  have "length (removeAll k (running (active_browsers c))) \<le> length (running (active_browsers c))"
    by (rule length_removeAll_less_eq)
  also have "\<dots> \<le> 1" using assms by (simp add: single_flight_def)
  finally show ?thesis .
qed

lemma work_single_flight:
  assumes "single_flight c"
  shows "single_flight (work ok c)"
proof (cases "queue_processor c")
  case Idle
  with assms show ?thesis
    by (cases "browser_queue c") (simp_all add: single_flight_def)
next
  case (Taken b)
  with assms running_mark[of b "active_browsers c"] show ?thesis
    by (simp add: single_flight_def)
next
  case (Marked b)
  with assms show ?thesis by (simp add: single_flight_def)
next
  case (Closing b todo)
  show ?thesis
  proof (cases todo)
    case Nil
    with assms Closing have "running (active_browsers c) = []"
      by (simp add: single_flight_def)
    then have "running (AList.update b Stream_detector (active_browsers c)) = [b]"
      by (rule running_install)
    with Closing Nil show ?thesis by (simp add: single_flight_def)
  next
    case (Cons x xs)
    from assms Closing Cons have "set (running (active_browsers c)) \<subseteq> insert x (set xs)"
      by (simp add: single_flight_def)
    then have "set (removeAll x (running (active_browsers c))) \<subseteq> set xs" by auto
    moreover have "length (removeAll x (running (active_browsers c))) \<le> 1"
      by (rule removeAll_at_most_one[OF assms])
    ultimately show ?thesis using Closing Cons
      by (simp add: single_flight_def running_close)
  qed
next
  case (Starting b)
  have "length (removeAll b (running (active_browsers c))) \<le> 1"
    by (rule removeAll_at_most_one[OF assms])
  with assms Starting show ?thesis
    by (simp add: single_flight_def running_delete)
qed

lemma step_single_flight:
  assumes "single_flight c"
  shows "single_flight (step e c)"
proof (cases e)
  case (Placeholder b)
  with assms running_placeholder[of b "''queued''" "active_browsers c"] show ?thesis
    by (auto simp: single_flight_def split: processor.splits)
next
  case (Put b)
  with assms show ?thesis by (auto simp: single_flight_def split: processor.splits)
next
  case (Close b)
  with assms removeAll_at_most_one[OF assms, of b] show ?thesis
    by (auto simp: single_flight_def running_close split: processor.splits)
next
  case (Work ok)
  with assms show ?thesis by (simp add: work_single_flight del: work.simps)
next
  case Crash
  with assms show ?thesis by (simp add: single_flight_def)
qed

lemma fold_single_flight:
  "single_flight c \<Longrightarrow> single_flight (fold step events c)"
  by (induction events arbitrary: c) (simp_all add: step_single_flight)

lemma run_single_flight: "single_flight (run events)"
  unfolding run_def by (rule fold_single_flight) (simp add: single_flight_def started_def running_def)

text \<open>
  C2, amended. After every sequence of events of the service, at most one entry of
  \<^verbatim>\<open>active_browsers\<close> is a launched browser; and when the queue processor has
  finished closing browsers and is about to store the detector of its request, no entry
  is a launched browser.
\<close>

theorem one_running_browser:
  "length (running (active_browsers (run events))) \<le> 1
   \<and> (\<forall>browser_id. queue_processor (run events) = Closing browser_id [] \<longrightarrow>
         running (active_browsers (run events)) = [])"
  using run_single_flight[of events] by (auto simp: single_flight_def)


lemma run_two_requests:
  "run two_requests =
     \<lparr>active_browsers = [(''sched_1_170'', Stream_detector),
                         (''sched_2_170'', Queued_dict ''launching'')],
      browser_queue = [], queue_processor = Marked ''sched_2_170''\<rparr>"
  by (simp add: run_def two_requests_def started_def mark_launching_def running_def)

lemma run_two_requests_closing:
  "run (two_requests @ [Work True, Work True]) =
     \<lparr>active_browsers = [(''sched_2_170'', Queued_dict ''launching'')],
      browser_queue = [], queue_processor = Closing ''sched_2_170'' []\<rparr>"
  using run_two_requests
  by (simp add: run_def running_def close_browser_def)

theorem one_running_browser_witness:
  "length (running (active_browsers (run two_requests))) \<le> 1
   \<and> queue_processor (run (two_requests @ [Work True, Work True])) = Closing ''sched_2_170'' []
   \<and> running (active_browsers (run (two_requests @ [Work True, Work True]))) = []"
proof -
  note a = one_running_browser[of two_requests, THEN conjunct1]
  note b = one_running_browser[of "two_requests @ [Work True, Work True]", THEN conjunct2]
  have p: "queue_processor (run (two_requests @ [Work True, Work True]))
             = Closing ''sched_2_170'' []"
    by (simp add: run_two_requests_closing)
  from b p have "running (active_browsers (run (two_requests @ [Work True, Work True]))) = []"
    by blast
  with a p show ?thesis by (intro conjI)
qed

text \<open>
  C2, as stated, fails: with two requests, the queue processor launches the first and
  then gives the second the status launching while the first is still a launched browser
  in \<^verbatim>\<open>active_browsers\<close>; only after that does it close the first.
\<close>

theorem launching_beside_running:
  "active_browsers (run two_requests)
     = [(''sched_1_170'', Stream_detector), (''sched_2_170'', Queued_dict ''launching'')]
   \<and> running (active_browsers (run two_requests)) = [''sched_1_170'']
   \<and> launching (active_browsers (run two_requests)) = [''sched_2_170'']
   \<and> \<not> length (running (active_browsers (run two_requests))
                @ launching (active_browsers (run two_requests))) \<le> 1"
  by (simp add: run_two_requests running_def launching_def)

subsection \<open>A manual stop\<close>

text \<open>
  \<^verbatim>\<open>move_to_next_slot\<close> is where a stop by the user moves the schedule on: a daily
  schedule waits for tomorrow's start, whatever \<^verbatim>\<open>manual_stop\<close> held before.
\<close>

lemma next_slot_daily:
  assumes "truthy (pyget s ''daily'')" and "s ''start_time'' = Some (PClock h m)"
    and "time_replace h m = Inr tod"
  shows "next_slot d s =
           (s(''status'' \<mapsto> PStr ''pending'', ''active_browser_id'' \<mapsto> PNone,
              ''manual_stop'' \<mapsto> PBool False,
              ''next_check'' \<mapsto> PStamp (combine (date_of (clock d) + 1) tod)), None)"
  using assms by (simp add: next_slot_def pyget_def item_def and_then_def Let_def)

lemma split_on_example:
  "split_on CHR ''_'' ''sched_1704099600001_1704150000''
     = [''sched'', ''1704099600001'', ''1704150000'']"
  by simp

lemma move_to_next_slot_example:
  "fst (move_to_next_slot \<lparr>clock = at_time (jan_1_2024 + 1) 0 20, jitter = 6 * minute_us\<rparr>
          ''sched_1704099600001_1704150000''
          \<lparr>schedules = [example_stopped], written = []\<rparr>) = Inr True
   \<and> written (snd (move_to_next_slot
          \<lparr>clock = at_time (jan_1_2024 + 1) 0 20, jitter = 6 * minute_us\<rparr>
          ''sched_1704099600001_1704150000''
          \<lparr>schedules = [example_stopped], written = []\<rparr>))
       = [[example_stopped(''status'' \<mapsto> PStr ''pending'', ''active_browser_id'' \<mapsto> PNone,
              ''manual_stop'' \<mapsto> PBool False,
              ''next_check'' \<mapsto> PStamp (at_time (jan_1_2024 + 2) 23 0))]]"
proof -
  let ?d = "\<lparr>clock = at_time (jan_1_2024 + 1) 0 20, jitter = 6 * minute_us\<rparr>"
  have dl: "truthy (pyget example_stopped ''daily'')"
    by (simp add: pyget_def example_stopped_lookup)
  have tr: "time_replace 23 0 = Inr ((23 * 60 + 0) * minute_us)"
    by (simp add: time_replace_def)
  have "date_of (at_time (jan_1_2024 + 1) 0 20) = jan_1_2024 + 1"
    by (simp add: at_time_parts)
  then have dt: "date_of (combine (jan_1_2024 + 1) (20 * minute_us)) = jan_1_2024 + 1"
    by (simp add: at_time_def)
  have ns: "next_slot ?d example_stopped =
           (example_stopped(''status'' \<mapsto> PStr ''pending'', ''active_browser_id'' \<mapsto> PNone,
              ''manual_stop'' \<mapsto> PBool False,
              ''next_check'' \<mapsto> PStamp (at_time (jan_1_2024 + 2) 23 0)), None)"
  proof -
    have c: "combine (date_of (clock ?d) + 1) ((23 * 60 + 0) * minute_us)
               = at_time (jan_1_2024 + 2) 23 0"
      by (simp add: dt at_time_def) (simp add: combine_def)
    show ?thesis
      unfolding next_slot_daily[OF dl example_stopped_lookup(5) tr] c ..
  qed
  have ml: "move_loop ?d ''sched_1704099600001_1704150000'' ''1704099600001'' [example_stopped]
              = (Inr True,
                 [example_stopped(''status'' \<mapsto> PStr ''pending'', ''active_browser_id'' \<mapsto> PNone,
                    ''manual_stop'' \<mapsto> PBool False,
                    ''next_check'' \<mapsto> PStamp (at_time (jan_1_2024 + 2) 23 0))])"
    by (simp add: item_def pyget_def example_stopped_lookup ns)
  have sw: "startswith ''sched_1704099600001_1704150000'' ''sched_''"
    by (simp add: startswith_def)
  have nth: "[''sched'', ''1704099600001'', ''1704150000''] ! 1 = ''1704099600001''"
    by simp
  show ?thesis
    unfolding move_to_next_slot_def Let_def split_on_example nth scheduler.select_convs ml
    using sw by (simp add: save_schedules_def)
qed

text \<open>
  After that, a pass inside the same window leaves the schedule pending and starts no
  check: \<^verbatim>\<open>next_check\<close> lies beyond the window end.
\<close>

lemma pending_until_next_check:
  assumes "s ''status'' = Some (PStr ''pending'')" and "s ''next_check'' = Some (PStamp nc)"
    and "e < nc" and "now \<le> e"
  shows "in_window dq now d s e = (s, False, None)"
  using assms
  by (simp add: in_window_def item_def ensure_active_def due_check_def pyget_def Let_def)

subsection \<open>The lock of the repository\<close>

text \<open>
  When a stored record has the id, \<^verbatim>\<open>ScheduleRepository.remove_schedule\<close> calls
  \<^verbatim>\<open>save_schedules\<close> while it holds the lock that \<^verbatim>\<open>save_schedules\<close> takes: the
  call does not return.
\<close>

lemma repo_remove_found_blocks:
  assumes free: "\<not> lock_held rp" and ids: "\<forall>s\<in>set (load_for_modification (disk rp)). ''id'' \<in> dom s"
    and found: "\<exists>s\<in>set (load_for_modification (disk rp)). s ''id'' = Some sid"
  shows "repo_remove_schedule sid rp = None"
proof -
  let ?l = "load_for_modification (disk rp)"
  from found obtain s where s: "s \<in> set ?l" and m: "s ''id'' = Some sid" by blast
  have "length (filter (\<lambda>s. s ''id'' \<noteq> Some sid) ?l) < length ?l"
    using length_filter_less[of s ?l "\<lambda>s. s ''id'' \<noteq> Some sid"] s m by simp
  with free show ?thesis
    by (simp add: repo_remove_schedule_def Let_def without_id_filter[OF ids]
          repo_save_schedules_def)
qed

end
